theory Spec2Isabelle
  imports Complex_Main
begin

section \<open>Python values, errors and the external libraries\<close>

text \<open>
  The repository is two Python modules: \<^verbatim>\<open>src/utils/stochastic_processes.py\<close> (four
  simulators and a legacy closed-form renewal sampler) and \<^verbatim>\<open>src/utils/data.py\<close>
  (the sequential splitter, the CSV loader and the synthetic dataset assembler).

  Names are the source's. A field of a class carries the class as a prefix where the
  bare name (\<open>b\<close>, \<open>s\<close>, \<open>f\<close>, \<open>n\<close>, \<open>P\<close>, \<open>pi\<close>, \<open>phi\<close>) would be taken for a variable, and
  \<^verbatim>\<open>__init__\<close> of a class \<open>C\<close> is \<open>C_init\<close>.

  Every exception the code can raise is a value of \<open>error\<close>; a function that can raise
  returns \<open>error + 'a\<close> with \<open>Inl\<close> for the exception. Floating-point numbers are
  modelled as real numbers, Python integers as \<open>int\<close> (or \<open>nat\<close> where the value is a
  length or an index that is never negative).
\<close>

datatype error =
    AssertionError string
  | ValueError string
  | TypeError string
  | IndexError
  | ZeroDivisionError
  | KeyError string
  | CsvError string

datatype pyval = PyInt int | PyFloat real


text \<open>
  numpy and scipy are not part of the repository. Their entry points are the fields of
  a record that every modelled function takes as its first argument: \<open>'g\<close> is the state
  of a pseudo-random generator, \<open>'w\<close> the state of the operating system's entropy pool
  (the only ambient mutable state \<^verbatim>\<open>np.random.default_rng(None)\<close> reads). A draw returns
  its value and the generator's next state.
\<close>

record ('g, 'w) libs =
  seeded :: "nat \<Rightarrow> 'g"
  os_entropy :: "'w \<Rightarrow> nat \<times> 'w"
  draw_binomial :: "'g \<Rightarrow> nat \<Rightarrow> real \<Rightarrow> nat \<times> 'g"
  draw_standard_normal :: "'g \<Rightarrow> nat \<Rightarrow> real list \<times> 'g"
  draw_choice :: "'g \<Rightarrow> int list \<Rightarrow> real list \<Rightarrow> nat \<Rightarrow> int list \<times> 'g"
  draw_uniform :: "'g \<Rightarrow> real \<Rightarrow> real \<Rightarrow> nat \<Rightarrow> real list \<times> 'g"
  draw_normal :: "'g \<Rightarrow> real list \<Rightarrow> real \<Rightarrow> real list \<times> 'g"
  factorial :: "real \<Rightarrow> real"
  poch :: "real \<Rightarrow> real \<Rightarrow> real"

text \<open>
  \<^verbatim>\<open>np.random.default_rng(seed)\<close>: an explicit seed fixes the generator and touches
  nothing else; \<^verbatim>\<open>None\<close> pulls fresh entropy from the operating system; a negative
  seed is refused.
\<close>

definition default_rng :: "('g, 'w) libs \<Rightarrow> int option \<Rightarrow> 'w \<Rightarrow> (error + 'g) \<times> 'w" where
  "default_rng L seed w =
     (case seed of
        None \<Rightarrow> (let (e, w') = os_entropy L w in (Inr (seeded L e), w'))
      | Some s \<Rightarrow>
          (if s < 0 then (Inl (ValueError ''expected non-negative integer''), w)
           else (Inr (seeded L (nat s)), w)))"

definition valid_seed :: "int option \<Rightarrow> bool" where
  "valid_seed seed = (case seed of None \<Rightarrow> True | Some s \<Rightarrow> 0 \<le> s)"

text \<open>
  Argument checks of the generator's methods, as numpy makes them before it draws:
  \<^verbatim>\<open>binomial\<close> refuses a probability outside [0, 1]; \<^verbatim>\<open>choice\<close> refuses an empty
  population, a probability vector of another length, a negative probability and a
  vector whose sum is further from 1 than the square root of the machine epsilon
  (\<open>2 ^ 52\<close> is the reciprocal of the epsilon of a double, so the bound is \<open>1 / 2 ^ 26\<close>).
\<close>

definition rng_binomial ::
  "('g, 'w) libs \<Rightarrow> 'g \<Rightarrow> nat \<Rightarrow> real \<Rightarrow> error + (nat \<times> 'g)" where
  "rng_binomial L g n p =
     (if p < 0 \<or> 1 < p then Inl (ValueError ''p < 0, p > 1 or p is NaN'')
      else Inr (draw_binomial L g n p))"

definition rng_choice ::
  "('g, 'w) libs \<Rightarrow> 'g \<Rightarrow> int list \<Rightarrow> real list \<Rightarrow> nat \<Rightarrow> error + (int list \<times> 'g)" where
  "rng_choice L g a p k =
     (if a = [] \<and> k \<noteq> 0 then Inl (ValueError ''a cannot be empty unless no samples are taken'')
      else if length p \<noteq> length a then Inl (ValueError ''a and p must have same size'')
      else if \<exists>x \<in> set p. x < 0 then Inl (ValueError ''probabilities are not non-negative'')
      else if 1 / 2 ^ 26 < \<bar>sum_list p - 1\<bar> then Inl (ValueError ''probabilities do not sum to 1'')
      else Inr (draw_choice L g a p k))"

text \<open>
  \<^verbatim>\<open>rng.choice(a, p=p)\<close> without a size returns one element: the single draw of a
  request of size one.
\<close>

definition rng_choice_scalar ::
  "('g, 'w) libs \<Rightarrow> 'g \<Rightarrow> int list \<Rightarrow> real list \<Rightarrow> error + (int \<times> 'g)" where
  "rng_choice_scalar L g a p =
     (case rng_choice L g a p 1 of
        Inl e \<Rightarrow> Inl e
      | Inr (xs, g') \<Rightarrow> (case xs of [] \<Rightarrow> Inl IndexError | x # _ \<Rightarrow> Inr (x, g')))"

text \<open>
  What the model relies on of the library: a binomial draw of \<open>n\<close> trials is at most
  \<open>n\<close>; \<^verbatim>\<open>standard_normal\<close>, \<^verbatim>\<open>uniform\<close> and \<^verbatim>\<open>choice\<close> return as many values as asked
  for, \<^verbatim>\<open>choice\<close> values of the population; \<^verbatim>\<open>normal\<close> returns one value per location.
\<close>

definition binomial_ok :: "('g, 'w) libs \<Rightarrow> bool" where
  "binomial_ok L = (\<forall>g n p. fst (draw_binomial L g n p) \<le> n)"

definition standard_normal_ok :: "('g, 'w) libs \<Rightarrow> bool" where
  "standard_normal_ok L = (\<forall>g k. length (fst (draw_standard_normal L g k)) = k)"

definition choice_ok :: "('g, 'w) libs \<Rightarrow> bool" where
  "choice_ok L =
     (\<forall>g a p k. length (fst (draw_choice L g a p k)) = k \<and>
        (a = [] \<or> set (fst (draw_choice L g a p k)) \<subseteq> set a))"

definition uniform_ok :: "('g, 'w) libs \<Rightarrow> bool" where
  "uniform_ok L = (\<forall>g lo hi k. length (fst (draw_uniform L g lo hi k)) = k)"

definition normal_ok :: "('g, 'w) libs \<Rightarrow> bool" where
  "normal_ok L = (\<forall>g loc scale. length (fst (draw_normal L g loc scale)) = length loc)"

text \<open>Python indexing: a negative index counts from the end, any other index out of
  range raises IndexError.\<close>

definition py_index :: "nat \<Rightarrow> int \<Rightarrow> nat option" where
  "py_index n i =
     (if 0 \<le> i \<and> i < int n then Some (nat i)
      else if - int n \<le> i \<and> i < 0 then Some (nat (int n + i))
      else None)"

definition vec_get :: "'a list \<Rightarrow> int \<Rightarrow> error + 'a" where
  "vec_get xs i = (case py_index (length xs) i of None \<Rightarrow> Inl IndexError | Some k \<Rightarrow> Inr (xs ! k))"

definition mat_get :: "'a list list \<Rightarrow> int \<Rightarrow> int \<Rightarrow> error + 'a" where
  "mat_get M i j =
     (case py_index (length M) i of
        None \<Rightarrow> Inl IndexError
      | Some r \<Rightarrow> vec_get (M ! r) j)"

definition mat_set :: "'a list list \<Rightarrow> int \<Rightarrow> int \<Rightarrow> 'a \<Rightarrow> error + 'a list list" where
  "mat_set M i j v =
     (case py_index (length M) i of
        None \<Rightarrow> Inl IndexError
      | Some r \<Rightarrow>
          (case py_index (length (M ! r)) j of
             None \<Rightarrow> Inl IndexError
           | Some c \<Rightarrow> Inr (M[r := (M ! r)[c := v]])))"

definition arange :: "int \<Rightarrow> int list" where
  "arange n = map int [0..<nat n]"

text \<open>\<^verbatim>\<open>cumsum\<close>: the running sum, carried in an accumulator.\<close>

fun cumsum_from :: "'a::monoid_add \<Rightarrow> 'a list \<Rightarrow> 'a list" where
  "cumsum_from acc [] = []"
| "cumsum_from acc (x # xs) = (acc + x) # cumsum_from (acc + x) xs"

definition cumsum :: "'a::monoid_add list \<Rightarrow> 'a list" where
  "cumsum xs = cumsum_from 0 xs"

section \<open>TwoStateMarkovChain\<close>

record TwoStateMarkovChain =
  TwoStateMarkovChain_P :: "real list list"
  TwoStateMarkovChain_pi :: "real list"

text \<open>
  The two assertions, then the matrix, then the stationary distribution. \<open>p\<close> and \<open>q\<close>
  are Python floats, so \<^verbatim>\<open>q / (p + q)\<close> raises ZeroDivisionError when \<open>p + q\<close> is zero.
\<close>

definition TwoStateMarkovChain_init :: "real \<Rightarrow> real \<Rightarrow> error + TwoStateMarkovChain" where
  "TwoStateMarkovChain_init p q =
     (if \<not> (0 \<le> p \<and> p \<le> 1) then Inl (AssertionError ''p must be between zero and one.'')
      else if \<not> (0 \<le> q \<and> q \<le> 1) then Inl (AssertionError ''q must be between zero and one.'')
      else if p + q = 0 then Inl ZeroDivisionError
      else Inr \<lparr>TwoStateMarkovChain_P = [[1 - p, p], [q, 1 - q]],
                TwoStateMarkovChain_pi = [q / (p + q), p / (p + q)]\<rparr>)"

text \<open>
  The loop \<^verbatim>\<open>for i in range(1, N): states[i] = rng.binomial(n=1, p=self.P[states[i-1], 1])\<close>.
\<close>

fun TwoStateMarkovChain_loop ::
  "('g, 'w) libs \<Rightarrow> real list list \<Rightarrow> nat list \<Rightarrow> 'g \<Rightarrow> int list \<Rightarrow> error + int list" where
  "TwoStateMarkovChain_loop L P [] rng states = Inr states"
| "TwoStateMarkovChain_loop L P (i # rest) rng states =
     (case mat_get P (states ! (i - 1)) 1 of
        Inl e \<Rightarrow> Inl e
      | Inr pr \<Rightarrow>
          (case rng_binomial L rng 1 pr of
             Inl e \<Rightarrow> Inl e
           | Inr (x, rng') \<Rightarrow> TwoStateMarkovChain_loop L P rest rng' (states[i := int x])))"

text \<open>
  \<^verbatim>\<open>np.empty(N, dtype=int)\<close> holds arbitrary integers; every cell is overwritten before
  it is read or returned, so the model starts from zeros. With \<open>N = 0\<close> the first
  assignment \<^verbatim>\<open>states[0] = ...\<close> raises IndexError.
\<close>

definition TwoStateMarkovChain_generate ::
  "('g, 'w) libs \<Rightarrow> TwoStateMarkovChain \<Rightarrow> nat \<Rightarrow> int option \<Rightarrow> 'w \<Rightarrow> (error + int list) \<times> 'w" where
  "TwoStateMarkovChain_generate L self N seed w =
     (case default_rng L seed w of
        (Inl e, w') \<Rightarrow> (Inl e, w')
      | (Inr rng, w') \<Rightarrow>
          (case vec_get (TwoStateMarkovChain_pi self) 1 of
             Inl e \<Rightarrow> (Inl e, w')
           | Inr p0 \<Rightarrow>
               (case rng_binomial L rng 1 p0 of
                  Inl e \<Rightarrow> (Inl e, w')
                | Inr (x0, rng1) \<Rightarrow>
                    if N = 0 then (Inl IndexError, w')
                    else
                      (case TwoStateMarkovChain_loop L (TwoStateMarkovChain_P self) [1..<N] rng1
                              ((replicate N 0)[0 := int x0]) of
                         Inl e \<Rightarrow> (Inl e, w')
                       | Inr states \<Rightarrow>
                           if \<forall>x \<in> set states. x \<in> {0, 1} then (Inr states, w')
                           else (Inl (AssertionError ''''), w')))))"

section \<open>CycleRandomWalk\<close>

record CycleRandomWalk =
  CycleRandomWalk_b :: real
  CycleRandomWalk_s :: real
  CycleRandomWalk_f :: real
  vertices :: int
  CycleRandomWalk_P :: "real list list"
  CycleRandomWalk_pi :: "real list"

text \<open>\<^verbatim>\<open>np.eye(n, k=k)\<close>, a matrix times a scalar, and the sum of two matrices.\<close>

definition eye :: "nat \<Rightarrow> int \<Rightarrow> real list list" where
  "eye n k = map (\<lambda>i. map (\<lambda>j. if int j = int i + k then 1 else 0) [0..<n]) [0..<n]"

definition mat_scale :: "real list list \<Rightarrow> real \<Rightarrow> real list list" where
  "mat_scale M c = map (map (\<lambda>x. x * c)) M"

definition mat_add :: "real list list \<Rightarrow> real list list \<Rightarrow> real list list" where
  "mat_add A B = map2 (map2 (+)) A B"

text \<open>\<^verbatim>\<open>np.allclose(a, b)\<close> with the default tolerances, on one entry.\<close>

definition isclose :: "real \<Rightarrow> real \<Rightarrow> bool" where
  "isclose a b = (\<bar>a - b\<bar> \<le> 1 / 10 ^ 8 + 1 / 10 ^ 5 * \<bar>b\<bar>)"

text \<open>
  The four assertions on the probabilities come first; \<^verbatim>\<open>np.eye\<close> then refuses a float
  or a negative size, and the two wrap-around assignments \<^verbatim>\<open>P[0, -1] = b\<close> and
  \<^verbatim>\<open>P[-1, 0] = f\<close> need at least one row. The row sums are asserted last.
\<close>

definition CycleRandomWalk_init ::
  "real \<Rightarrow> real \<Rightarrow> real \<Rightarrow> pyval \<Rightarrow> error + CycleRandomWalk" where
  "CycleRandomWalk_init b s f vs =
     (if \<not> (0 \<le> b \<and> b \<le> 1) then Inl (AssertionError ''b must be between zero and one.'')
      else if \<not> (0 \<le> s \<and> s \<le> 1) then Inl (AssertionError ''s must be between zero and one.'')
      else if \<not> (0 \<le> f \<and> f \<le> 1) then Inl (AssertionError ''f must be between zero and one.'')
      else if \<not> \<bar>b + s + f - 1\<bar> < 1 / 10 ^ 12
        then Inl (AssertionError ''probabilities must sum up to one.'')
      else
        (case vs of
           PyFloat x \<Rightarrow> Inl (TypeError ''float object cannot be interpreted as an integer'')
         | PyInt v \<Rightarrow>
             if v < 0 then Inl (ValueError ''negative dimensions are not allowed'')
             else
               (let n = nat v;
                    P0 = mat_add (mat_add (mat_scale (eye n (- 1)) b) (mat_scale (eye n 0) s))
                           (mat_scale (eye n 1) f)
                in case mat_set P0 0 (- 1) b of
                     Inl e \<Rightarrow> Inl e
                   | Inr P1 \<Rightarrow>
                       (case mat_set P1 (- 1) 0 f of
                          Inl e \<Rightarrow> Inl e
                        | Inr P2 \<Rightarrow>
                            if \<not> (\<forall>row \<in> set P2. isclose (sum_list row) 1)
                            then Inl (AssertionError ''transition matrix rows must sum up to one.'')
                            else Inr \<lparr>CycleRandomWalk_b = b, CycleRandomWalk_s = s,
                                      CycleRandomWalk_f = f, vertices = v,
                                      CycleRandomWalk_P = P2,
                                      CycleRandomWalk_pi = replicate n (1 / real n)\<rparr>))))"

text \<open>The matrix the specification describes: \<open>s\<close> on the diagonal, \<open>f\<close> above it,
  \<open>b\<close> below it, \<open>b\<close> in the top-right and \<open>f\<close> in the bottom-left cell.\<close>

definition cycle_cell :: "nat \<Rightarrow> real \<Rightarrow> real \<Rightarrow> real \<Rightarrow> nat \<Rightarrow> nat \<Rightarrow> real" where
  "cycle_cell n b s f i j =
     (if j = i then s
      else if j = i + 1 then f
      else if i = j + 1 then b
      else if i = 0 \<and> j = n - 1 then b
      else if i = n - 1 \<and> j = 0 then f
      else 0)"

text \<open>
  \<^verbatim>\<open>size=N-1\<close> is negative for \<open>N = 0\<close>, which numpy refuses. Python's \<^verbatim>\<open>%\<close> takes the
  sign of the divisor, as \<open>mod\<close> on \<open>int\<close> does.
\<close>

definition CycleRandomWalk_generate ::
  "('g, 'w) libs \<Rightarrow> CycleRandomWalk \<Rightarrow> nat \<Rightarrow> int option \<Rightarrow> 'w \<Rightarrow> (error + int list) \<times> 'w" where
  "CycleRandomWalk_generate L self N seed w =
     (case default_rng L seed w of
        (Inl e, w') \<Rightarrow> (Inl e, w')
      | (Inr rng, w') \<Rightarrow>
          (case rng_choice_scalar L rng (arange (vertices self)) (CycleRandomWalk_pi self) of
             Inl e \<Rightarrow> (Inl e, w')
           | Inr (initial_state, rng1) \<Rightarrow>
               if N = 0 then (Inl (ValueError ''negative dimensions are not allowed''), w')
               else
                 (case rng_choice L rng1 [- 1, 0, 1]
                         [CycleRandomWalk_b self, CycleRandomWalk_s self, CycleRandomWalk_f self]
                         (N - 1) of
                    Inl e \<Rightarrow> (Inl e, w')
                  | Inr (moves, rng2) \<Rightarrow>
                      (let states = map (\<lambda>x. x mod vertices self) (cumsum (initial_state # moves))
                       in if \<forall>x \<in> set states. x \<in> set (arange (vertices self))
                          then (Inr states, w')
                          else (Inl (AssertionError ''''), w')))))"

section \<open>AR1\<close>

record AR1 =
  AR1_phi :: real

definition AR1_init :: "real \<Rightarrow> AR1" where
  "AR1_init ph = \<lparr>AR1_phi = ph\<rparr>"

text \<open>
  The loop \<^verbatim>\<open>for i in range(1, N): states[i] = self.phi * states[i-1] + states[i]\<close>,
  over the list of the indices still to visit; the array is updated in place.
\<close>

fun AR1_loop :: "real \<Rightarrow> nat list \<Rightarrow> real list \<Rightarrow> real list" where
  "AR1_loop ph [] states = states"
| "AR1_loop ph (i # rest) states =
     AR1_loop ph rest (states[i := ph * states ! (i - 1) + states ! i])"

definition AR1_generate ::
  "('g, 'w) libs \<Rightarrow> AR1 \<Rightarrow> nat \<Rightarrow> int option \<Rightarrow> 'w \<Rightarrow> (error + real list) \<times> 'w" where
  "AR1_generate L self N seed w =
     (case default_rng L seed w of
        (Inl e, w') \<Rightarrow> (Inl e, w')
      | (Inr rng, w') \<Rightarrow>
          (let (states, rng') = draw_standard_normal L rng N
           in (Inr (AR1_loop (AR1_phi self) [1..<N] states), w')))"

section \<open>Renewal\<close>

record Renewal =
  Renewal_n :: real
  lim_f :: nat
  lim_x_zero :: nat

text \<open>
  \<^verbatim>\<open>match n\<close> compares with \<^verbatim>\<open>==\<close>, so the float 2.0 takes the branch of the literal 2.
\<close>

definition Renewal_init :: "real \<Rightarrow> error + Renewal" where
  "Renewal_init n =
     (if \<not> n > 1 then Inl (AssertionError '''')
      else if n = 2 then Inr \<lparr>Renewal_n = n, lim_f = 1413, lim_x_zero = 999998\<rparr>
      else if n = 3 then Inr \<lparr>Renewal_n = n, lim_f = 180, lim_x_zero = 1412\<rparr>
      else if n = 4 then Inr \<lparr>Renewal_n = n, lim_f = 68, lim_x_zero = 179\<rparr>
      else if n = 5 then Inr \<lparr>Renewal_n = n, lim_f = 39, lim_x_zero = 67\<rparr>
      else Inr \<lparr>Renewal_n = n, lim_f = 27, lim_x_zero = 38\<rparr>)"

text \<open>
  The two distribution functions, with Python's precedence:
  \<^verbatim>\<open>1 - factorial(n) / poch(i + 1, n) * (i + 1) / n\<close> is
  \<open>1 - (((factorial n / poch (i + 1) n) * (i + 1)) / n)\<close>.
\<close>

definition cdf_x_zero :: "('g, 'w) libs \<Rightarrow> Renewal \<Rightarrow> real \<Rightarrow> real" where
  "cdf_x_zero L self i =
     1 - factorial L (Renewal_n self) / poch L (i + 1) (Renewal_n self) * (i + 1) / Renewal_n self"

definition cdf_f :: "('g, 'w) libs \<Rightarrow> Renewal \<Rightarrow> real \<Rightarrow> real" where
  "cdf_f L self i = 1 - factorial L (Renewal_n self) / poch L (i + 1) (Renewal_n self)"

text \<open>
  What the model relies on of scipy's \<^verbatim>\<open>factorial\<close> and \<^verbatim>\<open>poch\<close>: for a decay coefficient
  above 1 the two distribution functions do not decrease along the natural numbers
  (they are distribution functions), so that the tables handed to \<^verbatim>\<open>np.digitize\<close> are
  monotonic.
\<close>

definition special_ok :: "('g, 'w) libs \<Rightarrow> bool" where
  "special_ok L =
     (\<forall>r i j. 1 < Renewal_n r \<longrightarrow> i \<le> j \<longrightarrow>
        cdf_x_zero L r (real i) \<le> cdf_x_zero L r (real j) \<and>
        cdf_f L r (real i) \<le> cdf_f L r (real j))"

text \<open>Everything the model relies on of numpy and scipy, together.\<close>

definition libs_ok :: "('g, 'w) libs \<Rightarrow> bool" where
  "libs_ok L =
     (binomial_ok L \<and> standard_normal_ok L \<and> choice_ok L \<and> uniform_ok L \<and> normal_ok L \<and>
      special_ok L)"

text \<open>
  \<^verbatim>\<open>np.digitize(x, bins)\<close> with \<^verbatim>\<open>right=False\<close>: numpy first classifies the bins as
  increasing (1), decreasing (-1) or neither (0, refused), then answers with a binary
  search (\<^verbatim>\<open>searchsorted\<close>, side right), which on a sorted array is the number of leading
  entries that are at most \<open>x\<close>; decreasing bins are searched reversed and the answer
  counted from the other end.
\<close>

definition monotonicity :: "real list \<Rightarrow> int" where
  "monotonicity bins = (if sorted bins then 1 else if sorted (rev bins) then - 1 else 0)"

definition searchsorted_right :: "real list \<Rightarrow> real \<Rightarrow> nat" where
  "searchsorted_right a v = length (takeWhile (\<lambda>b. b \<le> v) a)"

definition digitize_one :: "real list \<Rightarrow> real \<Rightarrow> nat" where
  "digitize_one bins x =
     (if monotonicity bins = - 1 then length bins - searchsorted_right (rev bins) x
      else searchsorted_right bins x)"

definition digitize :: "real list \<Rightarrow> real list \<Rightarrow> error + nat list" where
  "digitize xs bins =
     (if monotonicity bins = 0
      then Inl (ValueError ''bins must be monotonically increasing or decreasing'')
      else Inr (map (digitize_one bins) xs))"

definition digitize_scalar :: "real \<Rightarrow> real list \<Rightarrow> error + nat" where
  "digitize_scalar x bins =
     (if monotonicity bins = 0
      then Inl (ValueError ''bins must be monotonically increasing or decreasing'')
      else Inr (digitize_one bins x))"

text \<open>
  \<^verbatim>\<open>uniform_sample[0]\<close> raises IndexError for \<open>N = 0\<close>. The last line is
  \<^verbatim>\<open>[int(np.isin(n, x_cumsum[:n]).item()) for n in range(N)]\<close>: index \<open>n\<close> is looked up
  among the first \<open>n\<close> arrival times.
\<close>

definition Renewal_generate ::
  "('g, 'w) libs \<Rightarrow> Renewal \<Rightarrow> nat \<Rightarrow> int option \<Rightarrow> 'w \<Rightarrow> (error + int list) \<times> 'w" where
  "Renewal_generate L self N seed w =
     (case default_rng L seed w of
        (Inl e, w') \<Rightarrow> (Inl e, w')
      | (Inr rng, w') \<Rightarrow>
          (let (uniform_sample, rng') = draw_uniform L rng 0 0.999999 N
           in if uniform_sample = [] then (Inl IndexError, w')
              else
                (case digitize_scalar (uniform_sample ! 0)
                        (map (\<lambda>i. cdf_x_zero L self (real i)) [0..<lim_x_zero self]) of
                   Inl e \<Rightarrow> (Inl e, w')
                 | Inr x_zero \<Rightarrow>
                     (case digitize (drop 1 uniform_sample)
                             (map (\<lambda>i. cdf_f L self (real i)) [0..<lim_f self]) of
                        Inl e \<Rightarrow> (Inl e, w')
                      | Inr x \<Rightarrow>
                          (let x_cumsum = cumsum (x_zero # x)
                           in (Inr (map (\<lambda>n. if n \<in> set (take n x_cumsum) then 1 else 0) [0..<N]),
                               w'))))))"

text \<open>The arrival times of a call: the cumulative sum of the sampled gaps.\<close>

definition Renewal_arrivals ::
  "('g, 'w) libs \<Rightarrow> Renewal \<Rightarrow> real list \<Rightarrow> nat list" where
  "Renewal_arrivals L self uniform_sample =
     cumsum (digitize_one (map (\<lambda>i. cdf_x_zero L self (real i)) [0..<lim_x_zero self])
               (uniform_sample ! 0)
             # map (digitize_one (map (\<lambda>i. cdf_f L self (real i)) [0..<lim_f self]))
                 (drop 1 uniform_sample))"

subsection \<open>The closed-form variant for decay coefficient 3\<close>

text \<open>
  The class \<^verbatim>\<open>_Renewal\<close> (a name Isabelle cannot carry, hence the prefix \<open>legacy\<close>):
  \<^verbatim>\<open>np.ceil\<close> of the algebraic inverses, \<^verbatim>\<open>np.cbrt\<close> being the real cube root, and the
  output \<^verbatim>\<open>np.isin(np.arange(N), x_cumsum)\<close>, which looks every index up in the whole
  cumulative sum.
\<close>

definition legacy_inverse_cdf_x_zero :: "real \<Rightarrow> int" where
  "legacy_inverse_cdf_x_zero j = \<lceil>(- 5 * j - sqrt ((j - 9) * (j - 1)) + 5) / (2 * (j - 1))\<rceil>"

definition legacy_inverse_cdf_f :: "real \<Rightarrow> int" where
  "legacy_inverse_cdf_f j =
     (let t = sqrt (- 3 + 729 / (j - 1) ^ 2)
      in \<lceil>- 2 - root 3 (t / 9 + 3 / (j - 1)) - root 3 ((j - 1) / (3 * t * (j - 1) + 81))\<rceil>)"

definition legacy_Renewal_generate ::
  "('g, 'w) libs \<Rightarrow> nat \<Rightarrow> int option \<Rightarrow> 'w \<Rightarrow> (error + int list) \<times> 'w" where
  "legacy_Renewal_generate L N seed w =
     (case default_rng L seed w of
        (Inl e, w') \<Rightarrow> (Inl e, w')
      | (Inr rng, w') \<Rightarrow>
          (let (uniform_sample, rng') = draw_uniform L rng 0 0.999999 N
           in if uniform_sample = [] then (Inl IndexError, w')
              else
                (let x_zero = legacy_inverse_cdf_x_zero (uniform_sample ! 0);
                     x = x_zero # map legacy_inverse_cdf_f (drop 1 uniform_sample);
                     x_cumsum = cumsum x
                 in (Inr (map (\<lambda>n. if int n \<in> set x_cumsum then 1 else 0) [0..<N]), w'))))"

section \<open>A concrete library\<close>

text \<open>
  A small deterministic instance of the library record, on which the model can be
  evaluated: the generator state is a counter, the draws are simple functions of it,
  and the special functions are the factorial and the rising factorial of the integer
  part of their argument (what scipy returns at integer arguments).
\<close>

definition toy_libs :: "(nat, nat) libs" where
  "toy_libs =
     \<lparr>seeded = (\<lambda>s. s),
      os_entropy = (\<lambda>w. (w, Suc w)),
      draw_binomial = (\<lambda>g n p. (if 1 / 2 < p then n else 0, Suc g)),
      draw_standard_normal = (\<lambda>g k. (map (\<lambda>i. real (g + i)) [0..<k], g + k)),
      draw_choice = (\<lambda>g a p k. (map (\<lambda>i. a ! ((g + i) mod length a)) [0..<k], g + k)),
      draw_uniform =
        (\<lambda>g lo hi k. (map (\<lambda>i. lo + (hi - lo) * (real ((g + i) mod 4) / 4)) [0..<k], g + k)),
      draw_normal = (\<lambda>g loc scale. (map (\<lambda>x. x + scale) loc, Suc g)),
      factorial = (\<lambda>x. fact (nat \<lfloor>x\<rfloor>)),
      poch = (\<lambda>z m. pochhammer z (nat \<lfloor>m\<rfloor>))\<rparr>"

section \<open>Data frames\<close>

text \<open>
  What the code uses of pandas: a frame is an index and an ordered list of named
  columns; a missing entry (NaN) is \<open>None\<close>. \<^verbatim>\<open>df[name]\<close> raises KeyError for an unknown
  column; \<^verbatim>\<open>df[name] = col\<close> replaces the column of that name or appends a new one.
\<close>

record 'i dataframe =
  df_index :: "'i list"
  df_columns :: "(string \<times> real option list) list"


definition df_get :: "'i dataframe \<Rightarrow> string \<Rightarrow> error + real option list" where
  "df_get df name =
     (case map_of (df_columns df) name of None \<Rightarrow> Inl (KeyError name) | Some col \<Rightarrow> Inr col)"

definition df_set :: "'i dataframe \<Rightarrow> string \<Rightarrow> real option list \<Rightarrow> 'i dataframe" where
  "df_set df name col =
     (if name \<in> set (map fst (df_columns df))
      then df\<lparr>df_columns := map (\<lambda>(c, old). if c = name then (c, col) else (c, old)) (df_columns df)\<rparr>
      else df\<lparr>df_columns := df_columns df @ [(name, col)]\<rparr>)"

text \<open>\<^verbatim>\<open>Series.shift(k)\<close>: the values move \<open>k\<close> places down (up for negative \<open>k\<close>), the
  places they leave are missing, the length stays.\<close>

definition shift :: "int \<Rightarrow> 'a option list \<Rightarrow> 'a option list" where
  "shift k col =
     (let n = length col
      in if 0 \<le> k then replicate (min (nat k) n) None @ take (n - nat k) col
         else drop (nat (- k)) col @ replicate (min (nat (- k)) n) None)"

text \<open>\<^verbatim>\<open>dropna\<close> keeps the rows without a missing entry; \<^verbatim>\<open>reset_index(drop=True)\<close>
  numbers the rows from 0.\<close>

definition complete_rows :: "'i dataframe \<Rightarrow> nat list" where
  "complete_rows df =
     filter (\<lambda>i. \<forall>c \<in> set (df_columns df). snd c ! i \<noteq> None) [0..<length (df_index df)]"

definition dropna :: "'i dataframe \<Rightarrow> 'i dataframe" where
  "dropna df =
     (let rows = complete_rows df
      in \<lparr>df_index = map (\<lambda>i. df_index df ! i) rows,
          df_columns = map (\<lambda>(c, col). (c, map (\<lambda>i. col ! i) rows)) (df_columns df)\<rparr>)"


text \<open>\<^verbatim>\<open>str\<close> of an integer, as an f-string formats it.\<close>

fun str_nat :: "nat \<Rightarrow> string" where
  "str_nat n =
     (if n < 10 then [''0123456789'' ! n]
      else str_nat (n div 10) @ [''0123456789'' ! (n mod 10)])"

declare str_nat.simps [simp del]

definition str_int :: "int \<Rightarrow> string" where
  "str_int i = (if i < 0 then ''-'' @ str_nat (nat (- i)) else str_nat (nat i))"

section \<open>SequentialSplit\<close>

record SequentialSplit =
  sizes :: "int list"
  show_progress :: bool

text \<open>A Python slice \<^verbatim>\<open>xs[a:b]\<close>: a negative bound counts from the end, and both bounds
  are clipped to the list.\<close>

definition slice_bound :: "nat \<Rightarrow> int \<Rightarrow> nat" where
  "slice_bound n a = (if a < 0 then nat (max 0 (a + int n)) else min n (nat a))"

definition slice :: "'a list \<Rightarrow> int \<Rightarrow> int \<Rightarrow> 'a list" where
  "slice xs a b = drop (slice_bound (length xs) a) (take (slice_bound (length xs) b) xs)"

text \<open>
  \<^verbatim>\<open>split\<close> is a generator; the model is the list of the partitions it yields, in
  order. \<open>X\<close> enters only through \<^verbatim>\<open>X.shape[0]\<close>, its length. The progress bar
  (\<^verbatim>\<open>trange\<close>) iterates as \<^verbatim>\<open>range\<close> does.
\<close>

definition split :: "SequentialSplit \<Rightarrow> 'a list \<Rightarrow> int list list list" where
  "split self X =
     (let indices = arange (int (length X));
          n_splits = int (length indices) - sum_list (sizes self) + 1
      in map (\<lambda>t. map (\<lambda>j. slice indices (t + sum_list (take j (sizes self)))
                                          (t + sum_list (take (j + 1) (sizes self))))
                     [0..<length (sizes self)])
           (arange n_splits))"

section \<open>get_data\<close>

text \<open>
  \<^verbatim>\<open>pd.read_csv\<close> is the file system as seen by the call: a function from the path to
  the parsed frame or to the message of the exception pandas raises. The second
  component of the result is the list of the warnings emitted.
\<close>

definition leakage_message :: string where
  "leakage_message = ''A gap less than 1 would constitute data leakage and is not allowed.''"

definition gap_warning :: string where
  "gap_warning = ''Warning: No target variable was passed, but a gap was given. Gap will be ignored.''"

definition csv_path :: "string \<Rightarrow> int \<Rightarrow> int \<Rightarrow> string" where
  "csv_path target year maxlags =
     ''data/processed/df-'' @ target @ ''-'' @ str_int year @ ''-maxlags_'' @ str_int maxlags @ ''.csv''"

definition get_data ::
  "(string \<Rightarrow> string + 'i dataframe) \<Rightarrow> string \<Rightarrow> int \<Rightarrow> int \<Rightarrow> int \<Rightarrow>
     (error + 'i dataframe) \<times> string list" where
  "get_data read_csv target target_gap maxlags year =
     (if target \<noteq> [] \<and> target_gap < 1 then (Inl (ValueError leakage_message), [])
      else
        (let warnings = (if target = [] \<and> target_gap \<noteq> 0 then [gap_warning] else [])
         in case read_csv (csv_path target year maxlags) of
              Inl msg \<Rightarrow> (Inl (CsvError msg), warnings)
            | Inr df \<Rightarrow>
                if target \<noteq> [] then
                  (case df_get df target of
                     Inl e \<Rightarrow> (Inl e, warnings)
                   | Inr col \<Rightarrow>
                       (Inr (dropna (df_set df ''target'' (shift (- target_gap) col))), warnings))
                else (Inr (dropna df), warnings)))"

section \<open>get_synthetic\<close>













section \<open>Properties of Renewal construction\<close>

text \<open>
  C10. Renewal construction succeeds for every real \<open>n > 1\<close>, integer or not, and for
  every such \<open>n\<close> other than 2, 3, 4 and 5 the fallback bounds \<open>lim_f = 27\<close> and
  \<open>lim_x_zero = 38\<close> are selected.
\<close>

theorem Renewal_init_fallback:
  "1 < n \<Longrightarrow>
     (\<exists>r. Renewal_init n = Inr r \<and> Renewal_n r = n) \<and>
     (n \<notin> {2, 3, 4, 5} \<longrightarrow>
        Renewal_init n = Inr \<lparr>Renewal_n = n, lim_f = 27, lim_x_zero = 38\<rparr>)"
  by (simp add: Renewal_init_def)

theorem Renewal_init_fallback_witness:
  "(1::real) < 5 / 2 \<and> (5 / 2 :: real) \<notin> {2, 3, 4, 5} \<and>
   Renewal_init (5 / 2) = Inr \<lparr>Renewal_n = 5 / 2, lim_f = 27, lim_x_zero = 38\<rparr> \<and>
   (3 / 2 :: real) \<notin> {2, 3, 4, 5} \<and>
   Renewal_init (3 / 2) = Inr \<lparr>Renewal_n = 3 / 2, lim_f = 27, lim_x_zero = 38\<rparr>"
  using Renewal_init_fallback [of "5 / 2"] Renewal_init_fallback [of "3 / 2"] by simp

section \<open>Properties of AR1\<close>

text \<open>The loop invariant: after the loop has run over the indices from \<open>k\<close> on, the
  cells below \<open>k\<close> are untouched and every later cell holds the recursion.\<close>

lemma AR1_loop_upt:
  "length st = N \<Longrightarrow> 1 \<le> k \<Longrightarrow> k \<le> N \<Longrightarrow>
     length (AR1_loop ph [k..<N] st) = N \<and>
     (\<forall>j<k. AR1_loop ph [k..<N] st ! j = st ! j) \<and>
     (\<forall>i. k \<le> i \<and> i < N \<longrightarrow>
        AR1_loop ph [k..<N] st ! i = ph * AR1_loop ph [k..<N] st ! (i - 1) + st ! i)"
proof (induction "N - k" arbitrary: k st)
  case 0
  then show ?case by simp
next
  case (Suc d)
  define st' where "st' = st[k := ph * st ! (k - 1) + st ! k]"
  have kN: "k < N" using Suc.hyps(2) by simp
  have unfold: "AR1_loop ph [k..<N] st = AR1_loop ph [Suc k..<N] st'"
    using kN by (simp add: upt_conv_Cons st'_def)
  have len': "length st' = N" using Suc.prems by (simp add: st'_def)
  have d: "d = N - Suc k" using Suc.hyps(2) by simp
  have IH: "length (AR1_loop ph [Suc k..<N] st') = N \<and>
     (\<forall>j<Suc k. AR1_loop ph [Suc k..<N] st' ! j = st' ! j) \<and>
     (\<forall>i. Suc k \<le> i \<and> i < N \<longrightarrow>
        AR1_loop ph [Suc k..<N] st' ! i = ph * AR1_loop ph [Suc k..<N] st' ! (i - 1) + st' ! i)"
    using Suc.hyps(1) [OF d len'] kN by simp
  let ?out = "AR1_loop ph [Suc k..<N] st'"
  have a: "\<forall>j<k. ?out ! j = st ! j"
    using IH by (simp add: st'_def)
  have b: "?out ! k = ph * st ! (k - 1) + st ! k"
    using IH kN Suc.prems by (simp add: st'_def)
  have c: "?out ! (k - 1) = st ! (k - 1)"
    using a Suc.prems by simp
  have e: "\<forall>i. Suc k \<le> i \<and> i < N \<longrightarrow> ?out ! i = ph * ?out ! (i - 1) + st ! i"
    using IH by (simp add: st'_def)
  have f: "\<forall>i. k \<le> i \<and> i < N \<longrightarrow> ?out ! i = ph * ?out ! (i - 1) + st ! i"
  proof (intro allI impI)
    fix i assume "k \<le> i \<and> i < N"
    then consider "i = k" | "Suc k \<le> i \<and> i < N" by linarith
    then show "?out ! i = ph * ?out ! (i - 1) + st ! i"
      using b c e by cases simp_all
  qed
  show ?case unfolding unfold using IH a f by simp
qed

text \<open>A seed that numpy accepts always yields a generator.\<close>

lemma default_rng_valid:
  "valid_seed seed \<Longrightarrow> \<exists>rng w'. default_rng L seed w = (Inr rng, w')"
  by (auto simp: valid_seed_def default_rng_def split: option.splits prod.splits)

text \<open>
  C6. For every real \<open>phi\<close>, every \<open>N \<ge> 1\<close> and every seed, \<open>AR1(phi).generate(N, seed)\<close>
  returns a sequence of length \<open>N\<close> whose first value is the first standard-normal draw
  \<open>e_0\<close> of the seeded generator and whose value at every index \<open>i\<close> in \<open>[1, N)\<close> is
  \<open>phi * output[i-1] + e_i\<close>.
\<close>

theorem AR1_generate_recursion:
  assumes ok: "standard_normal_ok L" and seed: "valid_seed seed" and N: "1 \<le> N"
  shows "\<exists>rng w' out.
      default_rng L seed w = (Inr rng, w') \<and>
      AR1_generate L (AR1_init ph) N seed w = (Inr out, w') \<and>
      length out = N \<and>
      out ! 0 = fst (draw_standard_normal L rng N) ! 0 \<and>
      (\<forall>i. 1 \<le> i \<and> i < N \<longrightarrow>
         out ! i = ph * out ! (i - 1) + fst (draw_standard_normal L rng N) ! i)"
proof -
  obtain rng w' where rng: "default_rng L seed w = (Inr rng, w')"
    using default_rng_valid [OF seed, of L w] by blast
  define e where "e = fst (draw_standard_normal L rng N)"
  have len: "length e = N" using ok by (simp add: standard_normal_ok_def e_def)
  have gen: "AR1_generate L (AR1_init ph) N seed w = (Inr (AR1_loop ph [1..<N] e), w')"
    by (simp add: AR1_generate_def rng AR1_init_def e_def split: prod.splits)
  have loop: "length (AR1_loop ph [1..<N] e) = N \<and>
     (\<forall>j<1. AR1_loop ph [1..<N] e ! j = e ! j) \<and>
     (\<forall>i. 1 \<le> i \<and> i < N \<longrightarrow>
        AR1_loop ph [1..<N] e ! i = ph * AR1_loop ph [1..<N] e ! (i - 1) + e ! i)"
    using AR1_loop_upt [OF len _ N] by simp
  show ?thesis
    using rng gen loop unfolding e_def by simp
qed

lemma toy_standard_normal_ok: "standard_normal_ok toy_libs"
  by (simp add: standard_normal_ok_def toy_libs_def)

theorem AR1_generate_recursion_witness:
  "standard_normal_ok toy_libs \<and> valid_seed (Some 1) \<and> (1::nat) \<le> 3 \<and>
   fst (draw_standard_normal toy_libs (seeded toy_libs 1) 3) = [1, 2, 3] \<and>
   AR1_generate toy_libs (AR1_init (1 / 2)) 3 (Some 1) (0::nat) = (Inr [1, 5 / 2, 17 / 4], 0)"
proof -
  have draws: "fst (draw_standard_normal toy_libs (seeded toy_libs 1) 3) = [1, 2, 3]"
    by (simp add: toy_libs_def upt_conv_Cons)
  have run: "AR1_generate toy_libs (AR1_init (1 / 2)) 3 (Some 1) (0::nat) = (Inr [1, 5 / 2, 17 / 4], 0)"
    by (simp add: toy_libs_def AR1_generate_def default_rng_def AR1_init_def upt_conv_Cons)
  have seed: "valid_seed (Some 1)"
    by (simp add: valid_seed_def)
  show ?thesis
    using AR1_generate_recursion [OF toy_standard_normal_ok seed, of 3 "0::nat" "1 / 2"]
      draws run seed toy_standard_normal_ok
    by simp
qed

section \<open>Determinism under an explicit seed\<close>

lemma default_rng_Some:
  "default_rng L (Some s) w =
     (if s < 0 then Inl (ValueError ''expected non-negative integer'') else Inr (seeded L (nat s)), w)"
  by (simp add: default_rng_def)

lemma AR1_generate_seeded:
  "snd (AR1_generate L a N (Some s) w) = w \<and>
   fst (AR1_generate L a N (Some s) w) = fst (AR1_generate L a N (Some s) w0)"
  by (simp add: AR1_generate_def default_rng_Some split: prod.splits)

lemma TwoStateMarkovChain_generate_seeded:
  "snd (TwoStateMarkovChain_generate L m N (Some s) w) = w \<and>
   fst (TwoStateMarkovChain_generate L m N (Some s) w) =
     fst (TwoStateMarkovChain_generate L m N (Some s) w0)"
  by (auto simp: TwoStateMarkovChain_generate_def default_rng_Some split: prod.splits sum.splits)

lemma CycleRandomWalk_generate_seeded:
  "snd (CycleRandomWalk_generate L c N (Some s) w) = w \<and>
   fst (CycleRandomWalk_generate L c N (Some s) w) =
     fst (CycleRandomWalk_generate L c N (Some s) w0)"
  by (auto simp: CycleRandomWalk_generate_def default_rng_Some Let_def split: prod.splits sum.splits)

lemma Renewal_generate_seeded:
  "snd (Renewal_generate L r N (Some s) w) = w \<and>
   fst (Renewal_generate L r N (Some s) w) = fst (Renewal_generate L r N (Some s) w0)"
  by (auto simp: Renewal_generate_def default_rng_Some Let_def split: prod.splits sum.splits)

text \<open>Without a seed the output does depend on the entropy source, and the call
  consumes it.\<close>

lemma unseeded_generate_depends_on_entropy:
  "fst (AR1_generate toy_libs (AR1_init (1 / 2)) 2 None (0::nat)) = Inr [0, 1] \<and>
   fst (AR1_generate toy_libs (AR1_init (1 / 2)) 2 None (1::nat)) = Inr [1, 5 / 2] \<and>
   snd (AR1_generate toy_libs (AR1_init (1 / 2)) 2 None (0::nat)) = 1"
  by (simp add: toy_libs_def AR1_generate_def default_rng_def AR1_init_def upt_conv_Cons)

section \<open>Properties of get_data\<close>

text \<open>
  C9. \<open>get_data\<close> raises the data-leakage error if and only if the target name is
  non-empty and the gap is below 1. With an empty target name and a nonzero gap it
  emits the warning instead (and emits it in no other case), ignores the gap (the
  result is that of a call with gap 0) and goes on to read the file and drop the
  incomplete rows.
\<close>

theorem get_data_leakage_guard:
  "(fst (get_data read_csv target target_gap maxlags year) = Inl (ValueError leakage_message)
      \<longleftrightarrow> target \<noteq> [] \<and> target_gap < 1) \<and>
   (snd (get_data read_csv target target_gap maxlags year) = [gap_warning]
      \<longleftrightarrow> target = [] \<and> target_gap \<noteq> 0) \<and>
   (target = [] \<and> target_gap \<noteq> 0 \<longrightarrow>
      fst (get_data read_csv target target_gap maxlags year) =
        fst (get_data read_csv target 0 maxlags year) \<and>
      fst (get_data read_csv target target_gap maxlags year) =
        (case read_csv (csv_path [] year maxlags) of
           Inl msg \<Rightarrow> Inl (CsvError msg)
         | Inr df \<Rightarrow> Inr (dropna df)))"
  by (auto simp: get_data_def df_get_def Let_def split: sum.splits option.splits)

theorem get_data_leakage_guard_witness:
  "fst (get_data (\<lambda>p. Inr \<lparr>df_index = [10, 11, 12 :: nat],
                        df_columns = [(''x'', [Some 1, None, Some 3])]\<rparr>) ''x'' 0 3 2020) =
     Inl (ValueError leakage_message) \<and>
   get_data (\<lambda>p. Inr \<lparr>df_index = [10, 11, 12 :: nat],
                   df_columns = [(''x'', [Some 1, None, Some 3])]\<rparr>) '''' 5 3 2020 =
     (Inr \<lparr>df_index = [10, 12], df_columns = [(''x'', [Some 1, Some 3])]\<rparr>, [gap_warning]) \<and>
   get_data (\<lambda>p. Inr \<lparr>df_index = [10, 11, 12 :: nat],
                   df_columns = [(''x'', [Some 1, None, Some 3])]\<rparr>) '''' 0 3 2020 =
     (Inr \<lparr>df_index = [10, 12], df_columns = [(''x'', [Some 1, Some 3])]\<rparr>, [])"
proof -
  let ?csv = "\<lambda>p::string. Inr \<lparr>df_index = [10, 11, 12 :: nat],
                   df_columns = [(''x'', [Some (1::real), None, Some 3])]\<rparr> :: string + nat dataframe"
  have rows: "dropna \<lparr>df_index = [10, 11, 12 :: nat],
                   df_columns = [(''x'', [Some (1::real), None, Some 3])]\<rparr> =
      \<lparr>df_index = [10, 12], df_columns = [(''x'', [Some 1, Some 3])]\<rparr>"
    by (simp add: dropna_def complete_rows_def upt_conv_Cons)
  show ?thesis
    using get_data_leakage_guard [of ?csv "''x''" 0 3 2020]
      get_data_leakage_guard [of ?csv "''''" 5 3 2020]
    by (simp add: get_data_def rows)
qed

section \<open>Properties of SequentialSplit\<close>

lemma sum_list_take_nonneg:
  "\<forall>s \<in> set xs. (0::int) \<le> s \<Longrightarrow> 0 \<le> sum_list (take j xs)"
  by (rule sum_list_nonneg) (auto dest: in_set_takeD)

lemma sum_list_take_mono:
  assumes "\<forall>s \<in> set xs. (0::int) \<le> s" and "i \<le> j"
  shows "sum_list (take i xs) \<le> sum_list (take j xs)"
proof -
  have "take j xs = take i xs @ take (j - i) (drop i xs)"
    using assms(2) by (metis le_add_diff_inverse take_add)
  moreover have "0 \<le> sum_list (take (j - i) (drop i xs))"
    by (rule sum_list_nonneg) (use assms(1) in \<open>auto dest!: in_set_takeD in_set_dropD\<close>)
  ultimately show ?thesis by simp
qed

lemma sum_list_take_le:
  assumes "\<forall>s \<in> set xs. (0::int) \<le> s"
  shows "sum_list (take j xs) \<le> sum_list xs"
  using sum_list_take_mono [OF assms, of j "max j (length xs)"] by simp

lemma map_int_upt: "map int [m..<n] = [int m..int n - 1]"
proof (induction n)
  case 0
  then show ?case by simp
next
  case (Suc n)
  show ?case
  proof (cases "m \<le> n")
    case True
    then have "[int m..int (Suc n) - 1] = [int m..int n - 1] @ [int n]"
      using upto_rec2 [of "int m" "int n"] by simp
    then show ?thesis using Suc True by simp
  next
    case False
    then show ?thesis by simp
  qed
qed

text \<open>A slice of the index list between bounds that lie inside it.\<close>

lemma slice_arange:
  assumes "0 \<le> a" and "0 \<le> b" and "b \<le> int n"
  shows "slice (arange (int n)) a b = [a..b - 1]"
proof -
  have nb: "min n (nat b) = nat b"
    using assms by simp
  have "slice (arange (int n)) a b = map int [nat a..<nat b]"
  proof (cases "nat a \<le> n")
    case True
    then show ?thesis
      using assms nb by (simp add: slice_def slice_bound_def arange_def drop_map take_map)
  next
    case False
    then show ?thesis
      using assms nb by (simp add: slice_def slice_bound_def arange_def drop_map take_map)
  qed
  then show ?thesis using assms by (simp add: map_int_upt)
qed

text \<open>The running offsets of the segments: sums of the leading sizes.\<close>

lemma concat_segments:
  assumes "\<forall>j < k. A j \<le> A (Suc j)"
  shows "concat (map (\<lambda>j. [A j..<A (Suc j)]) [0..<k]) = [A 0..<A k]"
  using assms
proof (induction k)
  case 0
  then show ?case by simp
next
  case (Suc k)
  have mono: "A 0 \<le> A k"
    using Suc.prems by (induction k) (auto intro: le_trans)
  have "[A 0..<A (Suc k)] = [A 0..<A k] @ [A k..<A (Suc k)]"
    using mono Suc.prems
    by (metis le_add_diff_inverse lessI upt_add_eq_append)
  then show ?case using Suc by simp
qed


text \<open>
  C8. For sizes that are sizes (none negative) and an input at least as long as their
  sum, \<open>split\<close> yields \<open>len(X) - sum(sizes) + 1\<close> partitions, one per offset \<open>t\<close>
  from 0; the \<open>j\<close>-th segment of the \<open>t\<close>-th partition is the list of the consecutive
  indices from \<open>t + sum(sizes[:j])\<close> to \<open>t + sum(sizes[:j+1]) - 1\<close>, and the segments of
  a partition, one after the other, are the indices from \<open>t\<close> to \<open>t + sum(sizes) - 1\<close>:
  consecutive and without overlap.
\<close>

theorem split_partitions:
  assumes nonneg: "\<forall>s \<in> set (sizes self). 0 \<le> s"
    and fits: "sum_list (sizes self) \<le> int (length X)"
  shows "length (split self X) = nat (int (length X) - sum_list (sizes self) + 1) \<and>
    (\<forall>t < length (split self X).
       length (split self X ! t) = length (sizes self) \<and>
       (\<forall>j < length (sizes self).
          split self X ! t ! j =
            [int t + sum_list (take j (sizes self))..
             int t + sum_list (take (j + 1) (sizes self)) - 1]) \<and>
       concat (split self X ! t) = [int t..int t + sum_list (sizes self) - 1])"
proof -
  define S where "S j = sum_list (take j (sizes self))" for j
  define k where "k = length (sizes self)"
  define m where "m = nat (int (length X) - sum_list (sizes self) + 1)"
  have S_nonneg: "0 \<le> S j" for j
    unfolding S_def using nonneg by (rule sum_list_take_nonneg)
  have S_mono: "S i \<le> S j" if "i \<le> j" for i j
    unfolding S_def using nonneg that by (rule sum_list_take_mono)
  have S_le: "S j \<le> sum_list (sizes self)" for j
    unfolding S_def using nonneg by (rule sum_list_take_le)
  have S_k: "S k = sum_list (sizes self)"
    by (simp add: S_def k_def)
  have len_ar: "length (arange (int (length X))) = length X"
    by (simp add: arange_def)
  have split_eq: "split self X =
      map (\<lambda>t. map (\<lambda>j. slice (arange (int (length X))) (t + S j) (t + S (j + 1))) [0..<k])
        (arange (int m))"
    using fits by (simp add: split_def Let_def S_def k_def m_def len_ar)
  have len: "length (split self X) = m"
    by (simp add: split_eq arange_def)
  have part: "split self X ! t = map (\<lambda>j. [int t + S j..int t + S (j + 1) - 1]) [0..<k]"
    if t: "t < m" for t
  proof -
    have bound: "int t + sum_list (sizes self) \<le> int (length X)"
      using t by (simp add: m_def)
    have "slice (arange (int (length X))) (int t + S j) (int t + S (j + 1)) =
            [int t + S j..int t + S (j + 1) - 1]" for j
      by (rule slice_arange) (use S_nonneg [of j] S_nonneg [of "j + 1"] S_le [of "j + 1"] bound in simp_all)
    then show ?thesis
      using t by (simp add: split_eq arange_def)
  qed
  have seg: "[int t + S j..int t + S (Suc j) - 1] = map int [t + nat (S j)..<t + nat (S (Suc j))]"
    for t j
    using S_nonneg [of j] S_nonneg [of "Suc j"] by (simp add: map_int_upt)
  have cat: "concat (split self X ! t) = [int t..int t + sum_list (sizes self) - 1]"
    if t: "t < m" for t
  proof -
    have "concat (split self X ! t) =
            map int (concat (map (\<lambda>j. [t + nat (S j)..<t + nat (S (Suc j))]) [0..<k]))"
      by (simp add: part [OF t] seg map_concat comp_def)
    also have "concat (map (\<lambda>j. [t + nat (S j)..<t + nat (S (Suc j))]) [0..<k]) =
            [t + nat (S 0)..<t + nat (S k)]"
      by (rule concat_segments) (use S_mono in \<open>simp add: nat_mono\<close>)
    also have "map int [t + nat (S 0)..<t + nat (S k)] = [int t..int t + sum_list (sizes self) - 1]"
      using S_nonneg [of k] by (simp add: map_int_upt S_k) (simp add: S_def)
    finally show ?thesis .
  qed
  show ?thesis
    unfolding len using part cat by (simp add: m_def [symmetric] S_def k_def)
qed

theorem split_partitions_witness:
  "sum_list (sizes \<lparr>sizes = [2, 1], show_progress = True\<rparr>) \<le> int (length ''abcde'') \<and>
   split \<lparr>sizes = [2, 1], show_progress = True\<rparr> ''abcde'' =
     [[[0, 1], [2]], [[1, 2], [3]], [[2, 3], [4]]] \<and>
   length (split \<lparr>sizes = [2, 1], show_progress = True\<rparr> ''abcde'') = 3 \<and>
   concat (split \<lparr>sizes = [2, 1], show_progress = True\<rparr> ''abcde'' ! 1) = [1, 2, 3]"
proof -
  have run: "split \<lparr>sizes = [2, 1], show_progress = True\<rparr> ''abcde'' =
     [[[0, 1], [2]], [[1, 2], [3]], [[2, 3], [4]]]"
    by (simp add: split_def arange_def slice_def slice_bound_def upt_conv_Cons)
  show ?thesis
    using split_partitions [of "\<lparr>sizes = [2, 1], show_progress = True\<rparr>" "''abcde''"] run
    by simp
qed

text \<open>A negative entry is not a size: Python reads the slice bound \<open>-1\<close> from the end
  of the index list.\<close>

lemma split_negative_entry:
  "split \<lparr>sizes = [- 1, 3], show_progress = True\<rparr> ''abcde'' ! 0 = [[0, 1, 2, 3], []]"
  by (simp add: split_def arange_def slice_def slice_bound_def upt_conv_Cons)

section \<open>Properties of CycleRandomWalk construction\<close>

lemma mat_add_tabulated:
  "mat_add (map (\<lambda>i. map (F i) [0..<n]) [0..<m]) (map (\<lambda>i. map (G i) [0..<n]) [0..<m]) =
     map (\<lambda>i. map (\<lambda>j. F i j + G i j) [0..<n]) [0..<m]"
  by (simp add: mat_add_def map2_map_map)

lemma mat_scale_eye:
  "mat_scale (eye n k) c = map (\<lambda>i. map (\<lambda>j. if int j = int i + k then c else 0) [0..<n]) [0..<n]"
  by (simp add: mat_scale_def eye_def comp_def if_distrib [of "\<lambda>x. x * c"] cong: if_cong)

lemma tridiagonal:
  "mat_add (mat_add (mat_scale (eye n (- 1)) b) (mat_scale (eye n 0) s)) (mat_scale (eye n 1) f) =
     map (\<lambda>i. map (\<lambda>j. (if int j = int i + (- 1) then b else 0) + (if int j = int i + 0 then s else 0)
                         + (if int j = int i + 1 then f else 0)) [0..<n]) [0..<n]"
  by (simp only: mat_scale_eye mat_add_tabulated)

lemma tridiagonal_cell:
  assumes "3 \<le> n" "i < n" "j < n"
  shows "(if i = n - 1 \<and> j = 0 then f
          else if i = 0 \<and> j = n - 1 then b
          else (if int j = int i + (- 1) then b else 0) + (if int j = int i + 0 then s else 0)
                         + (if int j = int i + 1 then f else 0)) = cycle_cell n b s f i j"
  using assms by (auto simp: cycle_cell_def)


lemma py_index_less: "py_index n a = Some i \<Longrightarrow> i < n"
  by (auto simp: py_index_def split: if_splits)

lemma mat_set_tabulated:
  assumes r: "py_index m a = Some i" and c: "py_index n c = Some j"
  shows "mat_set (map (\<lambda>i. map (T i) [0..<n]) [0..<m]) a c v =
     Inr (map (\<lambda>i'. map (\<lambda>j'. if i' = i \<and> j' = j then v else T i' j') [0..<n]) [0..<m])"
proof -
  have i: "i < m" and j: "j < n"
    using r c by (auto dest: py_index_less)
  have "(map (\<lambda>i. map (T i) [0..<n]) [0..<m])[i := (map (T i) [0..<n])[j := v]] =
      map (\<lambda>i'. map (\<lambda>j'. if i' = i \<and> j' = j then v else T i' j') [0..<n]) [0..<m]"
    using i j by (auto simp: nth_list_update intro!: nth_equalityI)
  then show ?thesis
    using i j r c by (simp add: mat_set_def)
qed

lemma cycle_matrix:
  assumes n: "3 \<le> n"
  shows "\<exists>P1. mat_set (mat_add (mat_add (mat_scale (eye n (- 1)) b) (mat_scale (eye n 0) s))
                    (mat_scale (eye n 1) f)) 0 (- 1) b = Inr P1 \<and>
     mat_set P1 (- 1) 0 f = Inr (map (\<lambda>i. map (cycle_cell n b s f i) [0..<n]) [0..<n])"
proof -
  have first: "py_index n 0 = Some 0" and last: "py_index n (- 1) = Some (n - 1)"
    using n by (auto simp: py_index_def)
  let ?T = "\<lambda>i j. (if int j = int i + (- 1) then b else 0) + (if int j = int i + 0 then s else 0)
                         + (if int j = int i + 1 then f else 0)"
  let ?T1 = "\<lambda>i j. if i = 0 \<and> j = n - 1 then b else ?T i j"
  have one: "mat_set (mat_add (mat_add (mat_scale (eye n (- 1)) b) (mat_scale (eye n 0) s))
                    (mat_scale (eye n 1) f)) 0 (- 1) b = Inr (map (\<lambda>i. map (?T1 i) [0..<n]) [0..<n])"
    unfolding tridiagonal by (rule mat_set_tabulated [OF first last])
  have two: "mat_set (map (\<lambda>i. map (?T1 i) [0..<n]) [0..<n]) (- 1) 0 f =
      Inr (map (\<lambda>i. map (\<lambda>j. if i = n - 1 \<and> j = 0 then f else ?T1 i j) [0..<n]) [0..<n])"
    by (rule mat_set_tabulated [OF last first])
  have cells: "map (\<lambda>i. map (\<lambda>j. if i = n - 1 \<and> j = 0 then f else ?T1 i j) [0..<n]) [0..<n] =
      map (\<lambda>i. map (cycle_cell n b s f i) [0..<n]) [0..<n]"
  proof (intro map_cong refl)
    fix i j
    assume "i \<in> set [0..<n]" and "j \<in> set [0..<n]"
    then have "i < n" and "j < n" by simp_all
    then show "(if i = n - 1 \<and> j = 0 then f else ?T1 i j) = cycle_cell n b s f i j"
      by (rule tridiagonal_cell [OF n])
  qed
  show ?thesis using one two cells by simp
qed


lemma cycle_row_sum:
  assumes n: "3 \<le> n" and i: "i < n"
  shows "sum_list (map (cycle_cell n b s f i) [0..<n]) = b + s + f"
proof -
  define up where "up = (if i = n - 1 then 0 else i + 1)"
  define dn where "dn = (if i = 0 then n - 1 else i - 1)"
  have up: "up < n" and dn: "dn < n"
    using n i by (auto simp: up_def dn_def)
  have cell: "cycle_cell n b s f i j =
      (if j = i then s else 0) + (if j = up then f else 0) + (if j = dn then b else 0)"
    if "j < n" for j
  proof -
    consider "i = 0" | "i = n - 1" | "0 < i \<and> i < n - 1"
      using i by linarith
    then show ?thesis
    proof cases
      case 1
      then show ?thesis
        using n that by (simp add: cycle_cell_def up_def dn_def) linarith
    next
      case 2
      then show ?thesis
        using n that by (simp add: cycle_cell_def up_def dn_def) linarith
    next
      case 3
      then show ?thesis
        using n that by (simp add: cycle_cell_def up_def dn_def) linarith
    qed
  qed
  have "sum_list (map (cycle_cell n b s f i) [0..<n]) = (\<Sum>j \<in> {0..<n}. cycle_cell n b s f i j)"
    by (simp add: interv_sum_list_conv_sum_set_nat)
  also have "\<dots> = (\<Sum>j \<in> {0..<n}.
      (if j = i then s else 0) + (if j = up then f else 0) + (if j = dn then b else 0))"
    by (rule sum.cong) (simp_all add: cell)
  also have "\<dots> = s + f + b"
    using i up dn by (simp add: sum.distrib)
  finally show ?thesis by simp
qed


text \<open>
  C2, as the code has it. For probabilities \<open>b\<close>, \<open>s\<close>, \<open>f\<close> in [0, 1] whose sum is
  within \<open>1e-12\<close> of 1 and every vertex count of at least 3, construction succeeds and
  builds the \<open>vertices \<times> vertices\<close> matrix with \<open>b\<close> on the sub-diagonal, \<open>s\<close> on the
  diagonal, \<open>f\<close> on the super-diagonal, \<open>b\<close> in the top-right and \<open>f\<close> in the
  bottom-left cell; every row sums to \<open>b + s + f\<close>, which is within \<open>1e-12\<close> of 1.
\<close>

theorem CycleRandomWalk_init_matrix:
  assumes b: "0 \<le> b" "b \<le> 1" and s: "0 \<le> s" "s \<le> 1" and f: "0 \<le> f" "f \<le> 1"
    and one: "\<bar>b + s + f - 1\<bar> < 1 / 10 ^ 12" and v: "3 \<le> v"
  shows "\<exists>c. CycleRandomWalk_init b s f (PyInt v) = Inr c \<and>
     vertices c = v \<and>
     CycleRandomWalk_P c = map (\<lambda>i. map (cycle_cell (nat v) b s f i) [0..<nat v]) [0..<nat v] \<and>
     length (CycleRandomWalk_P c) = nat v \<and>
     (\<forall>row \<in> set (CycleRandomWalk_P c).
        length row = nat v \<and> sum_list row = b + s + f \<and> \<bar>sum_list row - 1\<bar> < 1 / 10 ^ 12)"
proof -
  define n where "n = nat v"
  have n: "3 \<le> n" using v by (simp add: n_def)
  define P2 where "P2 = map (\<lambda>i. map (cycle_cell n b s f i) [0..<n]) [0..<n]"
  obtain P1 where P1: "mat_set (mat_add (mat_add (mat_scale (eye n (- 1)) b) (mat_scale (eye n 0) s))
                    (mat_scale (eye n 1) f)) 0 (- 1) b = Inr P1"
    and P2: "mat_set P1 (- 1) 0 f = Inr P2"
    using cycle_matrix [OF n, of b s f] unfolding P2_def by blast
  have rows: "length row = n \<and> sum_list row = b + s + f" if "row \<in> set P2" for row
    using that n by (auto simp: P2_def cycle_row_sum)
  have close: "\<forall>row \<in> set P2. isclose (sum_list row) 1"
    using rows one by (simp add: isclose_def)
  have "CycleRandomWalk_init b s f (PyInt v) =
      Inr \<lparr>CycleRandomWalk_b = b, CycleRandomWalk_s = s, CycleRandomWalk_f = f, vertices = v,
           CycleRandomWalk_P = P2, CycleRandomWalk_pi = replicate n (1 / real n)\<rparr>"
    using b s f one v P1 P2 close by (simp add: CycleRandomWalk_init_def n_def [symmetric])
  then show ?thesis
    using rows one by (simp add: P2_def n_def)
qed

theorem CycleRandomWalk_init_matrix_witness:
  "\<bar>(1 / 4 :: real) + 1 / 2 + 1 / 4 - 1\<bar> < 1 / 10 ^ 12 \<and> (3::int) \<le> 3 \<and>
   CycleRandomWalk_init (1 / 4) (1 / 2) (1 / 4) (PyInt 3) =
     Inr \<lparr>CycleRandomWalk_b = 1 / 4, CycleRandomWalk_s = 1 / 2, CycleRandomWalk_f = 1 / 4,
          vertices = 3,
          CycleRandomWalk_P = [[1 / 2, 1 / 4, 1 / 4], [1 / 4, 1 / 2, 1 / 4], [1 / 4, 1 / 4, 1 / 2]],
          CycleRandomWalk_pi = [1 / 3, 1 / 3, 1 / 3]\<rparr>"
proof -
  have run: "CycleRandomWalk_init (1 / 4) (1 / 2) (1 / 4) (PyInt 3) =
     Inr \<lparr>CycleRandomWalk_b = 1 / 4, CycleRandomWalk_s = 1 / 2, CycleRandomWalk_f = 1 / 4,
          vertices = 3,
          CycleRandomWalk_P = [[1 / 2, 1 / 4, 1 / 4], [1 / 4, 1 / 2, 1 / 4], [1 / 4, 1 / 4, 1 / 2]],
          CycleRandomWalk_pi = [1 / 3, 1 / 3, 1 / 3]\<rparr>"
    by (simp add: CycleRandomWalk_init_def mat_add_def mat_scale_def eye_def mat_set_def
        py_index_def isclose_def upt_conv_Cons numeral_3_eq_3)
  show ?thesis
    using CycleRandomWalk_init_matrix [of "1 / 4" "1 / 2" "1 / 4" 3] run
    by simp
qed

text \<open>
  With two vertices the two wrap-around assignments overwrite the off-diagonal cells
  (the matrix is \<open>[[s, b], [f, s]]\<close>), with one vertex they overwrite the diagonal
  (\<open>[[f]]\<close>), and the assertion on the row sums rejects the matrix; with no vertex the
  first assignment is out of range.
\<close>

theorem CycleRandomWalk_init_two_vertices:
  "(0::real) \<le> 1 / 4 \<and> (1 / 4 :: real) \<le> 1 \<and> (0::real) \<le> 1 / 2 \<and> (1 / 2 :: real) \<le> 1 \<and>
   \<bar>(1 / 4 :: real) + 1 / 2 + 1 / 4 - 1\<bar> < 1 / 10 ^ 12 \<and>
   CycleRandomWalk_init (1 / 4) (1 / 2) (1 / 4) (PyInt 2) =
     Inl (AssertionError ''transition matrix rows must sum up to one.'')"
  by (simp add: CycleRandomWalk_init_def mat_add_def mat_scale_def eye_def mat_set_def
      py_index_def isclose_def upt_conv_Cons numeral_2_eq_2)

lemma CycleRandomWalk_init_small:
  "CycleRandomWalk_init (1 / 4) (1 / 2) (1 / 4) (PyInt 1) =
     Inl (AssertionError ''transition matrix rows must sum up to one.'') \<and>
   CycleRandomWalk_init (1 / 4) (1 / 2) (1 / 4) (PyInt 0) = Inl IndexError"
  by (simp add: CycleRandomWalk_init_def mat_add_def mat_scale_def eye_def mat_set_def
      py_index_def isclose_def)

section \<open>Properties of TwoStateMarkovChain\<close>

text \<open>
  C3, at the input where the code departs from it: \<open>p = 0\<close> and \<open>q = 0\<close> pass both
  assertions, and the stationary distribution then divides by \<open>p + q = 0\<close>.
\<close>

theorem TwoStateMarkovChain_init_zero:
  "TwoStateMarkovChain_init 0 0 = Inl ZeroDivisionError"
  by (simp add: TwoStateMarkovChain_init_def)


lemma TwoStateMarkovChain_init_Inr:
  assumes "TwoStateMarkovChain_init p q = Inr m"
  shows "0 \<le> p \<and> p \<le> 1 \<and> 0 \<le> q \<and> q \<le> 1 \<and> 0 < p + q \<and>
     m = \<lparr>TwoStateMarkovChain_P = [[1 - p, p], [q, 1 - q]],
          TwoStateMarkovChain_pi = [q / (p + q), p / (p + q)]\<rparr>"
  using assms by (auto simp: TwoStateMarkovChain_init_def split: if_splits)

lemma rng_binomial_bit:
  assumes "binomial_ok L" "0 \<le> pr" "pr \<le> 1"
  shows "\<exists>x rng'. rng_binomial L rng 1 pr = Inr (x, rng') \<and> x \<le> 1"
  using assms by (simp add: rng_binomial_def binomial_ok_def) (metis prod.collapse)

lemma transition_probability:
  assumes "0 \<le> (p::real)" "p \<le> 1" "0 \<le> (q::real)" "q \<le> 1" "x \<in> {0, 1}"
  shows "\<exists>pr. mat_get [[1 - p, p], [q, 1 - q]] x 1 = Inr pr \<and> 0 \<le> pr \<and> pr \<le> 1"
proof -
  have zero: "mat_get [[1 - p, p], [q, 1 - q]] 0 1 = Inr p"
    by (simp add: mat_get_def vec_get_def py_index_def)
  have one: "mat_get [[1 - p, p], [q, 1 - q]] 1 1 = Inr (1 - q)"
    by (simp add: mat_get_def vec_get_def py_index_def)
  from assms(5) consider "x = 0" | "x = 1" by auto
  then show ?thesis
    using assms(1-4) zero one by cases simp_all
qed

text \<open>The loop invariant: the cells below the next index hold 0 or 1.\<close>

lemma TwoStateMarkovChain_loop_bits:
  assumes L: "binomial_ok L"
    and p: "0 \<le> p" "p \<le> 1" and q: "0 \<le> q" "q \<le> 1"
  shows "length st = N \<Longrightarrow> 1 \<le> k \<Longrightarrow> k \<le> N \<Longrightarrow> \<forall>j<k. st ! j \<in> {0, 1} \<Longrightarrow>
     \<exists>out. TwoStateMarkovChain_loop L [[1 - p, p], [q, 1 - q]] [k..<N] rng st = Inr out \<and>
       length out = N \<and> (\<forall>j<N. out ! j \<in> {0, 1})"
proof (induction "N - k" arbitrary: k rng st)
  case 0
  then show ?case by simp
next
  case (Suc d)
  have kN: "k < N" using Suc.hyps(2) by simp
  have prev: "st ! (k - 1) \<in> {0, 1}"
    using Suc.prems by simp
  obtain pr where pr: "mat_get [[1 - p, p], [q, 1 - q]] (st ! (k - 1)) 1 = Inr pr"
    and pr01: "0 \<le> pr" "pr \<le> 1"
    using transition_probability [OF p q prev] by blast
  obtain x rng' where x: "rng_binomial L rng 1 pr = Inr (x, rng')" and x1: "x \<le> 1"
    using rng_binomial_bit [OF L pr01, of rng] by blast
  define st' where "st' = st[k := int x]"
  have step: "TwoStateMarkovChain_loop L [[1 - p, p], [q, 1 - q]] [k..<N] rng st =
      TwoStateMarkovChain_loop L [[1 - p, p], [q, 1 - q]] [Suc k..<N] rng' st'"
    using kN pr x by (simp add: upt_conv_Cons st'_def)
  have len': "length st' = N" using Suc.prems by (simp add: st'_def)
  have inv': "\<forall>j<Suc k. st' ! j \<in> {0, 1}"
  proof (intro allI impI)
    fix j assume "j < Suc k"
    then consider "j = k" | "j < k" by linarith
    then show "st' ! j \<in> {0, 1}"
    proof cases
      case 1
      then show ?thesis using x1 kN Suc.prems by (auto simp: st'_def)
    next
      case 2
      then show ?thesis using Suc.prems by (simp add: st'_def)
    qed
  qed
  have d: "d = N - Suc k" using Suc.hyps(2) by simp
  show ?case
    unfolding step using Suc.hyps(1) [OF d len' _ _ inv', of rng'] kN by simp
qed


section \<open>Properties of Renewal.generate\<close>

lemma Renewal_init_Inr:
  "Renewal_init n = Inr r \<Longrightarrow> 1 < n \<and> Renewal_n r = n"
  by (auto simp: Renewal_init_def split: if_splits)

text \<open>Monotonic tables: \<^verbatim>\<open>np.digitize\<close> accepts them and counts the leading entries
  that are at most the value.\<close>

lemma sorted_table:
  assumes "\<And>i j. i \<le> j \<Longrightarrow> g i \<le> (g j :: real)"
  shows "sorted (map g [0..<k])"
  by (simp add: sorted_map sorted_wrt_iff_nth_less assms)

lemma digitize_one_sorted:
  "sorted bins \<Longrightarrow> digitize_one bins x = length (takeWhile (\<lambda>b. b \<le> x) bins)"
  by (simp add: digitize_one_def monotonicity_def searchsorted_right_def)

lemma digitize_sorted:
  "sorted bins \<Longrightarrow> digitize xs bins = Inr (map (digitize_one bins) xs)"
  by (simp add: digitize_def monotonicity_def)

lemma digitize_scalar_sorted:
  "sorted bins \<Longrightarrow> digitize_scalar x bins = Inr (digitize_one bins x)"
  by (simp add: digitize_scalar_def monotonicity_def)

lemma special_ok_tables:
  assumes "special_ok L" "1 < Renewal_n r"
  shows "sorted (map (\<lambda>i. cdf_x_zero L r (real i)) [0..<k])"
    and "sorted (map (\<lambda>i. cdf_f L r (real i)) [0..<k])"
  using assms by (auto simp: special_ok_def intro!: sorted_table)

text \<open>The value of a call whose generator and uniform draws are known.\<close>

lemma Renewal_generate_eq:
  assumes "special_ok L" "1 < Renewal_n r" "default_rng L seed w = (Inr rng, w')"
    and "draw_uniform L rng 0 0.999999 N = (us, rng')" "us \<noteq> []"
  shows "Renewal_generate L r N seed w =
      (Inr (map (\<lambda>k. if k \<in> set (take k (Renewal_arrivals L r us)) then 1 else 0) [0..<N]), w')"
  using assms(3-5)
  by (simp add: Renewal_generate_def Renewal_arrivals_def Let_def
      digitize_sorted digitize_scalar_sorted special_ok_tables [OF assms(1,2)])

text \<open>
  What the code computes, for a constructed process, a seed that numpy accepts and
  \<open>N \<ge> 1\<close>: \<open>N\<close> values, the one at index \<open>k\<close> being 1 exactly when \<open>k\<close> is among the
  first \<open>k\<close> arrival times.
\<close>

lemma Renewal_generate_prefix:
  assumes L: "special_ok L" "uniform_ok L" and r: "Renewal_init n = Inr r"
    and seed: "valid_seed seed" and N: "1 \<le> N"
  shows "\<exists>rng w' out.
     default_rng L seed w = (Inr rng, w') \<and>
     Renewal_generate L r N seed w = (Inr out, w') \<and>
     length out = N \<and>
     (\<forall>k<N. out ! k =
        (if k \<in> set (take k (Renewal_arrivals L r (fst (draw_uniform L rng 0 0.999999 N))))
         then 1 else 0))"
proof -
  have n: "1 < Renewal_n r"
    using Renewal_init_Inr [OF r] by simp
  obtain rng w' where rng: "default_rng L seed w = (Inr rng, w')"
    using default_rng_valid [OF seed, of L w] by blast
  obtain us rng' where us: "draw_uniform L rng 0 0.999999 N = (us, rng')"
    by (metis prod.collapse)
  have len: "length us = N"
    using L(2) us by (metis fst_conv uniform_ok_def)
  then have ne: "us \<noteq> []" using N by auto
  show ?thesis
    using rng us Renewal_generate_eq [OF L(1) n rng us ne] by simp
qed

text \<open>The rising factorial grows with its base, so the distribution functions of the
  concrete library are monotonic.\<close>

lemma pochhammer_mono_real:
  assumes "0 < a" "a \<le> (b::real)"
  shows "pochhammer a m \<le> pochhammer b m"
proof (induction m)
  case 0
  then show ?case by simp
next
  case (Suc m)
  have "0 \<le> pochhammer a m"
    using assms(1) by (simp add: pochhammer_pos less_imp_le)
  then show ?case
    using Suc assms by (simp add: pochhammer_Suc mult_mono)
qed

lemma toy_cdf_f:
  "cdf_f toy_libs r i = 1 - fact (nat \<lfloor>Renewal_n r\<rfloor>) / pochhammer (i + 1) (nat \<lfloor>Renewal_n r\<rfloor>)"
  by (simp add: cdf_f_def toy_libs_def)

lemma toy_cdf_x_zero:
  assumes "1 < Renewal_n r" "0 \<le> i"
  shows "cdf_x_zero toy_libs r i =
     1 - fact (nat \<lfloor>Renewal_n r\<rfloor>) / Renewal_n r / pochhammer (i + 2) (nat \<lfloor>Renewal_n r\<rfloor> - 1)"
proof -
  define m where "m = nat \<lfloor>Renewal_n r\<rfloor> - 1"
  have m: "nat \<lfloor>Renewal_n r\<rfloor> = Suc m"
    using assms(1) by (simp add: m_def)
  have "pochhammer (i + 1) (Suc m) = (i + 1) * pochhammer (i + 2) m"
    by (simp add: pochhammer_rec add.commute add.left_commute)
  then show ?thesis
    using assms(2) by (simp add: cdf_x_zero_def toy_libs_def m m_def [symmetric])
qed

lemma toy_special_ok: "special_ok toy_libs"
  unfolding special_ok_def
proof (intro allI impI)
  fix r :: Renewal and i j :: nat
  assume "1 < Renewal_n r" and "i \<le> j"
  then have hyp: "1 < Renewal_n r \<and> i \<le> j" by simp
  show "cdf_x_zero toy_libs r (real i) \<le> cdf_x_zero toy_libs r (real j) \<and>
       cdf_f toy_libs r (real i) \<le> cdf_f toy_libs r (real j)"
  proof -
    define m where "m = nat \<lfloor>Renewal_n r\<rfloor>"
    have ij: "real i \<le> real j" using hyp by simp
    have f1: "pochhammer (real i + 1) m \<le> pochhammer (real j + 1) m"
      by (rule pochhammer_mono_real) (use ij in simp_all)
    have f2: "pochhammer (real i + 2) (m - 1) \<le> pochhammer (real j + 2) (m - 1)"
      by (rule pochhammer_mono_real) (use ij in simp_all)
    have p1: "0 < pochhammer (real i + 1) m" and p2: "0 < pochhammer (real i + 2) (m - 1)"
      by (simp_all add: pochhammer_pos)
    have c: "0 \<le> fact m / Renewal_n r"
      using hyp by simp
    have "fact m / pochhammer (real j + 1) m \<le> fact m / pochhammer (real i + 1) m"
      using f1 p1 by (simp add: frac_le)
    moreover have "fact m / Renewal_n r / pochhammer (real j + 2) (m - 1)
        \<le> fact m / Renewal_n r / pochhammer (real i + 2) (m - 1)"
      using f2 p2 c by (intro divide_left_mono) (simp_all add: pochhammer_pos)
    ultimately show ?thesis
      using hyp by (simp add: toy_cdf_f toy_cdf_x_zero m_def)
  qed
qed


text \<open>Counting the leading entries of a table that satisfy a predicate.\<close>

lemma count_leading:
  assumes "m < k" "\<forall>i<m. P (g i)" "\<not> P (g m)"
  shows "length (takeWhile P (map g [0..<k])) = m"
proof -
  have "[0..<m + (k - m)] = [0..<m] @ [m..<m + (k - m)]"
    by (rule upt_add_eq_append) simp
  then have "[0..<k] = [0..<m] @ m # [Suc m..<k]"
    using assms(1) by (simp add: upt_conv_Cons)
  then have "map g [0..<k] = map g [0..<m] @ g m # map g [Suc m..<k]"
    by simp
  then have "takeWhile P (map g [0..<k]) = map g [0..<m]"
    using assms(2,3) by (simp add: takeWhile_tail)
  then show ?thesis by simp
qed

text \<open>
  The decay coefficient 3 in the concrete library: the first gap is 0 for a draw below
  \<open>2/3\<close>, a later gap is 1 for a draw below \<open>3/4\<close>.
\<close>

lemma toy_first_gap_zero:
  assumes "u < 2 / 3"
  shows "digitize_one (map (\<lambda>i. cdf_x_zero toy_libs \<lparr>Renewal_n = 3, lim_f = 180, lim_x_zero = 1412\<rparr>
           (real i)) [0..<1412]) u = 0"
proof -
  have "\<not> cdf_x_zero toy_libs \<lparr>Renewal_n = 3, lim_f = 180, lim_x_zero = 1412\<rparr> (real 0) \<le> u"
    using assms by (simp add: cdf_x_zero_def toy_libs_def pochhammer_Suc numeral_3_eq_3)
  then have "length (takeWhile (\<lambda>b. b \<le> u)
      (map (\<lambda>i. cdf_x_zero toy_libs \<lparr>Renewal_n = 3, lim_f = 180, lim_x_zero = 1412\<rparr> (real i))
        [0..<1412])) = 0"
    by (intro count_leading) simp_all
  then show ?thesis
    by (simp only: digitize_one_sorted [OF special_ok_tables(1) [OF toy_special_ok]] Renewal.simps
        one_less_numeral_iff semiring_norm)
qed


lemma toy_later_gap_one:
  assumes "0 \<le> u" "u < 3 / 4"
  shows "digitize_one (map (\<lambda>i. cdf_f toy_libs \<lparr>Renewal_n = 3, lim_f = 180, lim_x_zero = 1412\<rparr>
           (real i)) [0..<180]) u = 1"
proof -
  have zero: "cdf_f toy_libs \<lparr>Renewal_n = 3, lim_f = 180, lim_x_zero = 1412\<rparr> (real 0) \<le> u"
    using assms by (simp add: cdf_f_def toy_libs_def pochhammer_Suc numeral_3_eq_3)
  have one: "\<not> cdf_f toy_libs \<lparr>Renewal_n = 3, lim_f = 180, lim_x_zero = 1412\<rparr> (real 1) \<le> u"
    using assms by (simp add: cdf_f_def toy_libs_def pochhammer_Suc numeral_3_eq_3)
  have "length (takeWhile (\<lambda>b. b \<le> u)
      (map (\<lambda>i. cdf_f toy_libs \<lparr>Renewal_n = 3, lim_f = 180, lim_x_zero = 1412\<rparr> (real i))
        [0..<180])) = 1"
    by (intro count_leading) (use zero one in simp_all)
  then show ?thesis
    by (simp only: digitize_one_sorted [OF special_ok_tables(2) [OF toy_special_ok]] Renewal.simps
        one_less_numeral_iff semiring_norm)
qed

text \<open>
  C1, at an input where the code departs from it. Decay coefficient 3, \<open>N = 3\<close>, and
  uniform draws \<open>0\<close>, \<open>0.24999975\<close> and \<open>0.4999995\<close> (all below \<open>2/3\<close>): the sampled gaps are 0, 1 and 1,
  so the arrival times are 0, 1 and 2 and every index of the output is an arrival
  time; the code returns 0 at all three, because index \<open>k\<close> is looked up only among
  the first \<open>k\<close> arrival times (\<^verbatim>\<open>x_cumsum[:n]\<close>).
\<close>

theorem Renewal_generate_misses_arrivals:
  "Renewal_init 3 = Inr \<lparr>Renewal_n = 3, lim_f = 180, lim_x_zero = 1412\<rparr> \<and>
   fst (draw_uniform toy_libs (seeded toy_libs 0) 0 0.999999 3) =
     [0, 999999 / 4000000, 999999 / 2000000] \<and>
   Renewal_arrivals toy_libs \<lparr>Renewal_n = 3, lim_f = 180, lim_x_zero = 1412\<rparr>
     [0, 999999 / 4000000, 999999 / 2000000] = [0, 1, 2] \<and>
   Renewal_generate toy_libs \<lparr>Renewal_n = 3, lim_f = 180, lim_x_zero = 1412\<rparr> 3 (Some 0) (0::nat) =
     (Inr [0, 0, 0], 0)"
proof -
  let ?r = "\<lparr>Renewal_n = 3, lim_f = 180, lim_x_zero = 1412\<rparr>"
  let ?us = "[0, 999999 / 4000000, 999999 / 2000000] :: real list"
  have init: "Renewal_init 3 = Inr ?r"
    by (simp add: Renewal_init_def)
  have draws: "draw_uniform toy_libs 0 0 0.999999 3 = (?us, 3)"
    by (simp add: toy_libs_def upt_conv_Cons)
  have rng: "default_rng toy_libs (Some 0) (0::nat) = (Inr 0, 0)"
    by (simp add: default_rng_def toy_libs_def)
  have arrivals: "Renewal_arrivals toy_libs ?r ?us = [0, 1, 2]"
    by (simp add: Renewal_arrivals_def toy_first_gap_zero toy_later_gap_one cumsum_def)
  have "Renewal_generate toy_libs ?r 3 (Some 0) (0::nat) =
      (Inr (map (\<lambda>k. if k \<in> set (take k (Renewal_arrivals toy_libs ?r ?us)) then 1 else 0) [0..<3]), 0)"
    by (rule Renewal_generate_eq [OF toy_special_ok _ rng draws]) simp_all
  then have run: "Renewal_generate toy_libs ?r 3 (Some 0) (0::nat) = (Inr [0, 0, 0], 0)"
    unfolding arrivals by (simp add: upt_conv_Cons)
  have seeded: "seeded toy_libs 0 = 0"
    by (simp add: toy_libs_def)
  show ?thesis
    using init draws arrivals run by (simp add: seeded)
qed


text \<open>Whatever the draws, index 0 is looked up in an empty prefix: the first value of
  the output is 0 even when the first arrival time is 0.\<close>

lemma Renewal_generate_first_value:
  assumes "special_ok L" "uniform_ok L" "Renewal_init n = Inr r" "valid_seed seed" "1 \<le> N"
  shows "\<exists>out w'. Renewal_generate L r N seed w = (Inr out, w') \<and> out ! 0 = 0"
proof -
  obtain rng w' out where run: "Renewal_generate L r N seed w = (Inr out, w')"
    and len: "length out = N"
    and cells: "\<forall>k<N. out ! k =
        (if k \<in> set (take k (Renewal_arrivals L r (fst (draw_uniform L rng 0 0.999999 N))))
         then 1 else 0)"
    using Renewal_generate_prefix [OF assms, of w] by blast
  have "0 < N" using assms(5) by simp
  then have "out ! 0 = 0"
    using cells by (metis empty_iff empty_set take_0)
  then show ?thesis using run by simp
qed

section \<open>Properties of the data frame assembly\<close>









text \<open>Shifted columns, entry by entry.\<close>

lemma length_shift: "length (shift k col) = length col"
  by (auto simp: shift_def Let_def min_def)







section \<open>Properties of CycleRandomWalk.generate\<close>

lemma CycleRandomWalk_init_Inr:
  assumes "CycleRandomWalk_init b s f vs = Inr c"
  shows "\<exists>v. vs = PyInt v \<and> 1 \<le> v \<and> vertices c = v \<and>
     CycleRandomWalk_b c = b \<and> CycleRandomWalk_s c = s \<and> CycleRandomWalk_f c = f \<and>
     CycleRandomWalk_pi c = replicate (nat v) (1 / real (nat v)) \<and>
     0 \<le> b \<and> 0 \<le> s \<and> 0 \<le> f \<and> \<bar>b + s + f - 1\<bar> < 1 / 10 ^ 12"
proof (cases vs)
  case (PyFloat x)
  then show ?thesis
    using assms by (simp add: CycleRandomWalk_init_def split: if_splits)
next
  case (PyInt v)
  have "v \<noteq> 0"
  proof
    assume "v = 0"
    then show False
      using assms PyInt
      by (simp add: CycleRandomWalk_init_def mat_set_def py_index_def mat_add_def mat_scale_def
          eye_def split: if_splits)
  qed
  moreover have "0 \<le> v"
    using assms PyInt by (simp add: CycleRandomWalk_init_def split: if_splits)
  ultimately have v: "1 \<le> v" by simp
  show ?thesis
    using assms PyInt v
    by (auto simp: CycleRandomWalk_init_def Let_def split: if_splits sum.splits)
qed




section \<open>Properties of get_synthetic\<close>








text \<open>The concrete library meets everything that is assumed of numpy and scipy.\<close>

lemma toy_libs_ok: "libs_ok toy_libs"
proof -
  have "binomial_ok toy_libs"
    by (simp add: binomial_ok_def toy_libs_def)
  moreover have "choice_ok toy_libs"
    by (auto simp: choice_ok_def toy_libs_def)
  moreover have "uniform_ok toy_libs"
    by (simp add: uniform_ok_def toy_libs_def)
  moreover have "normal_ok toy_libs"
    by (simp add: normal_ok_def toy_libs_def)
  ultimately show ?thesis
    using toy_standard_normal_ok toy_special_ok by (simp add: libs_ok_def)
qed

section \<open>The two renewal samplers compared\<close>

text \<open>The closed-form first gap is 0 for every draw in \<open>(0, 2/3]\<close>.\<close>

lemma legacy_first_gap_zero:
  assumes "0 < j" "j \<le> 2 / 3"
  shows "legacy_inverse_cdf_x_zero j = 0"
proof -
  define a where "a = 1 - j"
  have a: "1 / 3 \<le> a" "a < 1" using assms by (simp_all add: a_def)
  define r where "r = sqrt (a * (a + 8))"
  have a0: "0 < a" using a by linarith
  then have nonneg: "0 \<le> a * (a + 8)"
    by (intro mult_nonneg_nonneg) simp_all
  then have r_pos: "0 \<le> r" and r_sq: "r\<^sup>2 = a * (a + 8)"
    by (simp_all add: r_def)
  have "a * (1 / 3) \<le> a * a"
    using a a0 by (intro mult_left_mono) simp_all
  then have "8 * a \<le> 24 * a * a"
    by simp
  then have "a * (a + 8) \<le> (5 * a)\<^sup>2"
    by (simp add: power2_eq_square algebra_simps)
  then have "r\<^sup>2 \<le> (5 * a)\<^sup>2"
    by (simp only: r_sq)
  then have upper: "r \<le> 5 * a"
    by (rule power2_le_imp_le) (use a0 in simp)
  have "a * a < a"
    using a a0 by simp
  then have "(3 * a)\<^sup>2 < a * (a + 8)"
    by (simp add: power2_eq_square algebra_simps)
  then have "(3 * a)\<^sup>2 < r\<^sup>2"
    by (simp only: r_sq)
  then have lower: "3 * a < r"
    by (rule power2_less_imp_less) (rule r_pos)
  have arg: "(j - 9) * (j - 1) = a * (a + 8)"
    by (simp add: a_def algebra_simps)
  have val: "(- 5 * j - sqrt ((j - 9) * (j - 1)) + 5) / (2 * (j - 1)) = - ((5 * a - r) / (2 * a))"
    unfolding arg r_def [symmetric] using a by (simp add: a_def field_simps)
  have "0 \<le> (5 * a - r) / (2 * a)" and "(5 * a - r) / (2 * a) < 1"
    using upper lower a by (simp_all add: field_simps)
  then show ?thesis
    unfolding legacy_inverse_cdf_x_zero_def val by (simp add: ceiling_eq_iff)
qed


text \<open>
  So whenever the first draw lies in \<open>(0, 2/3]\<close> the closed-form sampler starts with a
  1: the first arrival time is 0 and index 0 is looked up in the whole cumulative sum.
  The table-based sampler starts with a 0 on every call (lemma
  \<open>Renewal_generate_first_value\<close>).
\<close>

lemma legacy_Renewal_generate_first_value:
  assumes L: "uniform_ok L" and N: "1 \<le> N"
    and rng: "default_rng L seed w = (Inr rng, w')"
    and u0: "0 < fst (draw_uniform L rng 0 0.999999 N) ! 0"
      "fst (draw_uniform L rng 0 0.999999 N) ! 0 \<le> 2 / 3"
  shows "\<exists>out. legacy_Renewal_generate L N seed w = (Inr out, w') \<and> length out = N \<and> out ! 0 = 1"
proof -
  obtain us rng' where us: "draw_uniform L rng 0 0.999999 N = (us, rng')"
    by (metis prod.collapse)
  have "length us = N"
    using L us by (metis fst_conv uniform_ok_def)
  then have ne: "us \<noteq> []" using N by auto
  have gap: "legacy_inverse_cdf_x_zero (us ! 0) = 0"
    using u0 us by (simp add: legacy_first_gap_zero)
  have "legacy_Renewal_generate L N seed w =
      (Inr (map (\<lambda>n. if int n \<in> set (cumsum (0 # map legacy_inverse_cdf_f (drop 1 us))) then 1 else 0)
             [0..<N]), w')"
    using rng us ne gap by (simp add: legacy_Renewal_generate_def Let_def)
  moreover have "0 < N" using N by simp
  ultimately show ?thesis
    by (simp add: cumsum_def)
qed

text \<open>
  C5, at an input where the code departs from it. Decay coefficient 3, \<open>N = 1\<close> and
  the first uniform draw \<open>0.24999975\<close>: both samplers draw the gap 0, so the arrival
  time is 0; the closed-form sampler returns \<open>[1]\<close>, the table-based one \<open>[0]\<close>. By
  the two lemmas above the same happens for every first draw in \<open>(0, 2/3)\<close>, about
  two seeds in three.
\<close>

theorem renewal_samplers_differ:
  "Renewal_generate toy_libs \<lparr>Renewal_n = 3, lim_f = 180, lim_x_zero = 1412\<rparr> 1 (Some 1) (0::nat) =
     (Inr [0], 0) \<and>
   legacy_Renewal_generate toy_libs 1 (Some 1) (0::nat) = (Inr [1], 0)"
proof -
  let ?r = "\<lparr>Renewal_n = 3, lim_f = 180, lim_x_zero = 1412\<rparr>"
  have draws: "draw_uniform toy_libs 1 0 0.999999 1 = ([999999 / 4000000], 2)"
    by (simp add: toy_libs_def)
  have rng: "default_rng toy_libs (Some 1) (0::nat) = (Inr 1, 0)"
    by (simp add: default_rng_def toy_libs_def)
  have "Renewal_generate toy_libs ?r 1 (Some 1) (0::nat) =
      (Inr (map (\<lambda>k. if k \<in> set (take k (Renewal_arrivals toy_libs ?r [999999 / 4000000])) then 1 else 0)
             [0..<1]), 0)"
    by (rule Renewal_generate_eq [OF toy_special_ok _ rng draws]) simp_all
  then have general: "Renewal_generate toy_libs ?r 1 (Some 1) (0::nat) = (Inr [0], 0)"
    by simp
  have "legacy_inverse_cdf_x_zero (999999 / 4000000) = 0"
    by (rule legacy_first_gap_zero) simp_all
  then have "legacy_Renewal_generate toy_libs 1 (Some 1) (0::nat) = (Inr [1], 0)"
    using rng draws by (simp add: legacy_Renewal_generate_def cumsum_def)
  then show ?thesis
    using general by simp
qed

section \<open>The output of generate under an explicit seed\<close>

text \<open>
  What each \<open>generate\<close> returns for a seed \<open>s \<ge> 0\<close>, written out in the draws of the
  generator \<open>seeded L (nat s)\<close>.
\<close>

lemma AR1_generate_trace:
  assumes "0 \<le> s"
  shows "AR1_generate L a N (Some s) w =
     (Inr (AR1_loop (AR1_phi a) [1..<N] (fst (draw_standard_normal L (seeded L (nat s)) N))), w)"
  using assms by (simp add: AR1_generate_def default_rng_Some split: prod.splits)

lemma TwoStateMarkovChain_generate_trace:
  assumes L: "binomial_ok L" and m: "TwoStateMarkovChain_init p q = Inr m"
    and s: "0 \<le> s" and N: "1 \<le> N"
  shows "\<exists>out.
     TwoStateMarkovChain_loop L (TwoStateMarkovChain_P m) [1..<N]
       (snd (draw_binomial L (seeded L (nat s)) 1 (TwoStateMarkovChain_pi m ! 1)))
       ((replicate N 0)[0 := int (fst (draw_binomial L (seeded L (nat s)) 1
                                        (TwoStateMarkovChain_pi m ! 1)))]) = Inr out \<and>
     TwoStateMarkovChain_generate L m N (Some s) w = (Inr out, w) \<and>
     length out = N \<and> (\<forall>x \<in> set out. x \<in> {0, 1})"
proof -
  have pq: "0 \<le> p" "p \<le> 1" "0 \<le> q" "q \<le> 1" "0 < p + q"
    and m_eq: "m = \<lparr>TwoStateMarkovChain_P = [[1 - p, p], [q, 1 - q]],
          TwoStateMarkovChain_pi = [q / (p + q), p / (p + q)]\<rparr>"
    using TwoStateMarkovChain_init_Inr [OF m] by simp_all
  define g where "g = seeded L (nat s)"
  have rng: "default_rng L (Some s) w = (Inr g, w)"
    using s by (simp add: default_rng_Some g_def)
  have pi1: "TwoStateMarkovChain_pi m ! 1 = p / (p + q)"
    by (simp add: m_eq)
  have p0: "vec_get (TwoStateMarkovChain_pi m) 1 = Inr (p / (p + q))"
    by (simp add: m_eq vec_get_def py_index_def)
  have p0_range: "0 \<le> p / (p + q)" "p / (p + q) \<le> 1"
    using pq by simp_all
  obtain x0 g1 where d0: "draw_binomial L g 1 (p / (p + q)) = (x0, g1)"
    by (metis prod.collapse)
  have x0: "rng_binomial L g 1 (p / (p + q)) = Inr (x0, g1)"
    using p0_range d0 by (simp add: rng_binomial_def)
  have x01: "x0 \<le> 1"
    using L d0 by (metis binomial_ok_def fst_conv)
  define st where "st = (replicate N (0::int))[0 := int x0]"
  have len: "length st = N" by (simp add: st_def)
  have inv: "\<forall>j<1. st ! j \<in> {0, 1}"
    using x01 N by (auto simp: st_def)
  obtain out where out: "TwoStateMarkovChain_loop L [[1 - p, p], [q, 1 - q]] [1..<N] g1 st = Inr out"
    and out_len: "length out = N" and out_bits: "\<forall>j<N. out ! j \<in> {0, 1}"
    using TwoStateMarkovChain_loop_bits [OF L pq(1-4) len _ N inv, of g1] by auto
  have bits: "\<forall>x \<in> set out. x \<in> {0, 1}"
    using out_bits out_len by (metis in_set_conv_nth)
  have gen: "TwoStateMarkovChain_generate L m N (Some s) w = (Inr out, w)"
    using rng p0 x0 N out bits
    by (simp add: TwoStateMarkovChain_generate_def m_eq st_def [symmetric])
  have loop: "TwoStateMarkovChain_loop L (TwoStateMarkovChain_P m) [1..<N]
       (snd (draw_binomial L (seeded L (nat s)) 1 (TwoStateMarkovChain_pi m ! 1)))
       ((replicate N 0)[0 := int (fst (draw_binomial L (seeded L (nat s)) 1
                                        (TwoStateMarkovChain_pi m ! 1)))]) = Inr out"
    using out d0 unfolding pi1 g_def [symmetric] by (simp add: m_eq st_def)
  show ?thesis
    using loop gen out_len bits by blast
qed

lemma CycleRandomWalk_generate_trace:
  assumes L: "choice_ok L" and c: "CycleRandomWalk_init b sp f vs = Inr c"
    and s: "0 \<le> s" and N: "1 \<le> N"
  shows "CycleRandomWalk_generate L c N (Some s) w =
     (Inr (map (\<lambda>x. x mod vertices c)
            (cumsum
              (hd (fst (draw_choice L (seeded L (nat s)) (arange (vertices c))
                          (CycleRandomWalk_pi c) 1)) #
               fst (draw_choice L
                      (snd (draw_choice L (seeded L (nat s)) (arange (vertices c))
                              (CycleRandomWalk_pi c) 1))
                      [- 1, 0, 1]
                      [CycleRandomWalk_b c, CycleRandomWalk_s c, CycleRandomWalk_f c] (N - 1))))),
      w)"
proof -
  obtain v where v: "1 \<le> v" "vertices c = v"
    and fields: "CycleRandomWalk_b c = b" "CycleRandomWalk_s c = sp" "CycleRandomWalk_f c = f"
      "CycleRandomWalk_pi c = replicate (nat v) (1 / real (nat v))"
    and valid: "0 \<le> b" "0 \<le> sp" "0 \<le> f" "\<bar>b + sp + f - 1\<bar> < 1 / 10 ^ 12"
    using CycleRandomWalk_init_Inr [OF c] by blast
  define g where "g = seeded L (nat s)"
  have rng: "default_rng L (Some s) w = (Inr g, w)"
    using s by (simp add: default_rng_Some g_def)
  have ar: "arange v \<noteq> []" "length (arange v) = nat v"
    using v(1) by (simp_all add: arange_def)
  have pi_sum: "sum_list (replicate (nat v) (1 / real (nat v))) = 1"
    using v(1) by (simp add: sum_list_replicate)
  have first: "rng_choice L g (arange v) (replicate (nat v) (1 / real (nat v))) 1 =
      Inr (draw_choice L g (arange v) (replicate (nat v) (1 / real (nat v))) 1)"
    using ar pi_sum by (simp add: rng_choice_def)
  obtain xs g1 where xs: "draw_choice L g (arange v) (replicate (nat v) (1 / real (nat v))) 1 = (xs, g1)"
    by (metis prod.collapse)
  have "length xs = 1"
    using L xs by (metis choice_ok_def fst_conv)
  then obtain x0 where x0: "xs = [x0]"
    by (cases xs) simp_all
  have scalar: "rng_choice_scalar L g (arange (vertices c)) (CycleRandomWalk_pi c) = Inr (x0, g1)"
    using first xs x0 by (simp add: rng_choice_scalar_def v(2) fields)
  have small: "\<bar>b + sp + f - 1\<bar> \<le> 1 / 2 ^ 26"
    using valid(4) by simp
  have moves_ok: "rng_choice L g1 [- 1, 0, 1] [b, sp, f] (N - 1) =
      Inr (draw_choice L g1 [- 1, 0, 1] [b, sp, f] (N - 1))"
    using valid(1-3) small by (simp add: rng_choice_def add.assoc)
  obtain moves g2 where moves: "draw_choice L g1 [- 1, 0, 1] [b, sp, f] (N - 1) = (moves, g2)"
    by (metis prod.collapse)
  define states where "states = map (\<lambda>x. x mod v) (cumsum (x0 # moves))"
  have range: "\<forall>x \<in> set states. 0 \<le> x \<and> x < v"
    using v(1) by (auto simp: states_def)
  have member: "\<forall>x \<in> set states. x \<in> set (arange v)"
  proof
    fix x assume "x \<in> set states"
    then have "0 \<le> x" "x < v" using range by simp_all
    then have "x = int (nat x)" "nat x < nat v" by simp_all
    then show "x \<in> set (arange v)"
      unfolding arange_def by (metis atLeast0LessThan imageI lessThan_iff set_map set_upt)
  qed
  have gen: "CycleRandomWalk_generate L c N (Some s) w = (Inr states, w)"
    using rng scalar N moves_ok moves member [unfolded states_def]
    by (simp add: CycleRandomWalk_generate_def fields v(2) states_def)
  show ?thesis
    unfolding gen g_def [symmetric] fields v(2) xs
    using moves by (simp add: x0 states_def)
qed

lemma Renewal_generate_trace:
  assumes L: "special_ok L" "uniform_ok L" and r: "Renewal_init n = Inr r"
    and s: "0 \<le> s" and N: "1 \<le> N"
  shows "Renewal_generate L r N (Some s) w =
     (Inr (map (\<lambda>k. if k \<in> set (take k (Renewal_arrivals L r
                                              (fst (draw_uniform L (seeded L (nat s)) 0 0.999999 N))))
                     then 1 else 0) [0..<N]), w)"
proof -
  have n: "1 < Renewal_n r"
    using Renewal_init_Inr [OF r] by simp
  have rng: "default_rng L (Some s) w = (Inr (seeded L (nat s)), w)"
    using s by (simp add: default_rng_Some)
  obtain us g' where us: "draw_uniform L (seeded L (nat s)) 0 0.999999 N = (us, g')"
    by (metis prod.collapse)
  have "length us = N"
    using L(2) us by (metis fst_conv uniform_ok_def)
  then have ne: "us \<noteq> []" using N by auto
  show ?thesis
    using Renewal_generate_eq [OF L(1) n rng us ne] us by simp
qed

text \<open>
  C7. Two calls of \<open>generate(N, seed)\<close> with the same explicit seed return the same
  output, for every simulator, every \<open>N\<close>, every seed and whatever the state of the
  entropy source at the two calls (\<open>w1\<close>, \<open>w2\<close>): the call returns the entropy source as
  it found it, so the second of two successive calls starts from \<open>w1\<close> again. The
  output is that of the generator made from the seed and of nothing else: for a seed
  \<open>s \<ge> 0\<close> (and, for the three simulators that have a constructor check, a process
  that was constructed and \<open>N \<ge> 1\<close>), each simulator returns the value computed from
  the draws of \<open>seeded L (nat s)\<close>, a generator that the call makes for itself,

  \<^item> AR1: the recursion over the \<open>N\<close> standard normal draws of that generator;
  \<^item> TwoStateMarkovChain: the chain whose first state is the first binomial draw of
    that generator, continued from the generator state that draw leaves;
  \<^item> CycleRandomWalk: the cumulative sum, modulo the number of vertices, of the
    initial vertex and the \<open>N - 1\<close> moves drawn in this order from that generator;
  \<^item> Renewal: the indicator computed from the \<open>N\<close> uniform draws of that generator.
\<close>

theorem generate_deterministic:
  "TwoStateMarkovChain_generate L m N (Some s) w1 =
     (fst (TwoStateMarkovChain_generate L m N (Some s) w2), w1) \<and>
   AR1_generate L a N (Some s) w1 = (fst (AR1_generate L a N (Some s) w2), w1) \<and>
   CycleRandomWalk_generate L c N (Some s) w1 =
     (fst (CycleRandomWalk_generate L c N (Some s) w2), w1) \<and>
   Renewal_generate L r N (Some s) w1 = (fst (Renewal_generate L r N (Some s) w2), w1) \<and>
   (0 \<le> s \<longrightarrow>
    AR1_generate L a N (Some s) w1 =
      (Inr (AR1_loop (AR1_phi a) [1..<N] (fst (draw_standard_normal L (seeded L (nat s)) N))), w1)) \<and>
   (libs_ok L \<and> 0 \<le> s \<and> 1 \<le> N \<and> TwoStateMarkovChain_init p q = Inr m \<longrightarrow>
    (\<exists>out.
       TwoStateMarkovChain_loop L (TwoStateMarkovChain_P m) [1..<N]
         (snd (draw_binomial L (seeded L (nat s)) 1 (TwoStateMarkovChain_pi m ! 1)))
         ((replicate N 0)[0 := int (fst (draw_binomial L (seeded L (nat s)) 1
                                          (TwoStateMarkovChain_pi m ! 1)))]) = Inr out \<and>
       TwoStateMarkovChain_generate L m N (Some s) w1 = (Inr out, w1))) \<and>
   (libs_ok L \<and> 0 \<le> s \<and> 1 \<le> N \<and> CycleRandomWalk_init b sp f vs = Inr c \<longrightarrow>
    CycleRandomWalk_generate L c N (Some s) w1 =
      (Inr (map (\<lambda>x. x mod vertices c)
             (cumsum
               (hd (fst (draw_choice L (seeded L (nat s)) (arange (vertices c))
                           (CycleRandomWalk_pi c) 1)) #
                fst (draw_choice L
                       (snd (draw_choice L (seeded L (nat s)) (arange (vertices c))
                               (CycleRandomWalk_pi c) 1))
                       [- 1, 0, 1]
                       [CycleRandomWalk_b c, CycleRandomWalk_s c, CycleRandomWalk_f c] (N - 1))))),
       w1)) \<and>
   (libs_ok L \<and> 0 \<le> s \<and> 1 \<le> N \<and> Renewal_init n = Inr r \<longrightarrow>
    Renewal_generate L r N (Some s) w1 =
      (Inr (map (\<lambda>k. if k \<in> set (take k (Renewal_arrivals L r
                                               (fst (draw_uniform L (seeded L (nat s)) 0 0.999999 N))))
                      then 1 else 0) [0..<N]), w1))"
proof -
  have markov: "TwoStateMarkovChain_generate L m N (Some s) w1 =
     (fst (TwoStateMarkovChain_generate L m N (Some s) w2), w1)"
    using TwoStateMarkovChain_generate_seeded [of L m N s w1 w2] by (metis prod.collapse)
  have ar1: "AR1_generate L a N (Some s) w1 = (fst (AR1_generate L a N (Some s) w2), w1)"
    using AR1_generate_seeded [of L a N s w1 w2] by (metis prod.collapse)
  have cycle: "CycleRandomWalk_generate L c N (Some s) w1 =
     (fst (CycleRandomWalk_generate L c N (Some s) w2), w1)"
    using CycleRandomWalk_generate_seeded [of L c N s w1 w2] by (metis prod.collapse)
  have renewal: "Renewal_generate L r N (Some s) w1 = (fst (Renewal_generate L r N (Some s) w2), w1)"
    using Renewal_generate_seeded [of L r N s w1 w2] by (metis prod.collapse)
  have t_ar1: "0 \<le> s \<longrightarrow>
    AR1_generate L a N (Some s) w1 =
      (Inr (AR1_loop (AR1_phi a) [1..<N] (fst (draw_standard_normal L (seeded L (nat s)) N))), w1)"
    using AR1_generate_trace [of s L a N w1] by blast
  have t_markov: "libs_ok L \<and> 0 \<le> s \<and> 1 \<le> N \<and> TwoStateMarkovChain_init p q = Inr m \<longrightarrow>
    (\<exists>out.
       TwoStateMarkovChain_loop L (TwoStateMarkovChain_P m) [1..<N]
         (snd (draw_binomial L (seeded L (nat s)) 1 (TwoStateMarkovChain_pi m ! 1)))
         ((replicate N 0)[0 := int (fst (draw_binomial L (seeded L (nat s)) 1
                                          (TwoStateMarkovChain_pi m ! 1)))]) = Inr out \<and>
       TwoStateMarkovChain_generate L m N (Some s) w1 = (Inr out, w1))"
  proof (intro impI, elim conjE)
    assume L: "libs_ok L" and s: "0 \<le> s" and N: "1 \<le> N"
      and m: "TwoStateMarkovChain_init p q = Inr m"
    have ok: "binomial_ok L"
      using L by (simp add: libs_ok_def)
    show "\<exists>out.
       TwoStateMarkovChain_loop L (TwoStateMarkovChain_P m) [1..<N]
         (snd (draw_binomial L (seeded L (nat s)) 1 (TwoStateMarkovChain_pi m ! 1)))
         ((replicate N 0)[0 := int (fst (draw_binomial L (seeded L (nat s)) 1
                                          (TwoStateMarkovChain_pi m ! 1)))]) = Inr out \<and>
       TwoStateMarkovChain_generate L m N (Some s) w1 = (Inr out, w1)"
      using TwoStateMarkovChain_generate_trace [OF ok m s N, of w1] by blast
  qed
  have t_cycle: "libs_ok L \<and> 0 \<le> s \<and> 1 \<le> N \<and> CycleRandomWalk_init b sp f vs = Inr c \<longrightarrow>
    CycleRandomWalk_generate L c N (Some s) w1 =
      (Inr (map (\<lambda>x. x mod vertices c)
             (cumsum
               (hd (fst (draw_choice L (seeded L (nat s)) (arange (vertices c))
                           (CycleRandomWalk_pi c) 1)) #
                fst (draw_choice L
                       (snd (draw_choice L (seeded L (nat s)) (arange (vertices c))
                               (CycleRandomWalk_pi c) 1))
                       [- 1, 0, 1]
                       [CycleRandomWalk_b c, CycleRandomWalk_s c, CycleRandomWalk_f c] (N - 1))))),
       w1)"
  proof (intro impI, elim conjE)
    assume L: "libs_ok L" and s: "0 \<le> s" and N: "1 \<le> N"
      and c: "CycleRandomWalk_init b sp f vs = Inr c"
    have ok: "choice_ok L"
      using L by (simp add: libs_ok_def)
    show "CycleRandomWalk_generate L c N (Some s) w1 =
      (Inr (map (\<lambda>x. x mod vertices c)
             (cumsum
               (hd (fst (draw_choice L (seeded L (nat s)) (arange (vertices c))
                           (CycleRandomWalk_pi c) 1)) #
                fst (draw_choice L
                       (snd (draw_choice L (seeded L (nat s)) (arange (vertices c))
                               (CycleRandomWalk_pi c) 1))
                       [- 1, 0, 1]
                       [CycleRandomWalk_b c, CycleRandomWalk_s c, CycleRandomWalk_f c] (N - 1))))),
       w1)"
      by (rule CycleRandomWalk_generate_trace [OF ok c s N])
  qed
  have t_renewal: "libs_ok L \<and> 0 \<le> s \<and> 1 \<le> N \<and> Renewal_init n = Inr r \<longrightarrow>
    Renewal_generate L r N (Some s) w1 =
      (Inr (map (\<lambda>k. if k \<in> set (take k (Renewal_arrivals L r
                                               (fst (draw_uniform L (seeded L (nat s)) 0 0.999999 N))))
                      then 1 else 0) [0..<N]), w1)"
  proof (intro impI, elim conjE)
    assume L: "libs_ok L" and s: "0 \<le> s" and N: "1 \<le> N" and r: "Renewal_init n = Inr r"
    have ok: "special_ok L" "uniform_ok L"
      using L by (simp_all add: libs_ok_def)
    show "Renewal_generate L r N (Some s) w1 =
      (Inr (map (\<lambda>k. if k \<in> set (take k (Renewal_arrivals L r
                                               (fst (draw_uniform L (seeded L (nat s)) 0 0.999999 N))))
                      then 1 else 0) [0..<N]), w1)"
      by (rule Renewal_generate_trace [OF ok r s N])
  qed
  show ?thesis
    by (intro conjI markov ar1 cycle renewal t_ar1 t_markov t_cycle t_renewal)
qed

theorem generate_deterministic_witness:
  "libs_ok toy_libs \<and> (0::int) \<le> 1 \<and> (1::nat) \<le> 3 \<and>
   TwoStateMarkovChain_init (3 / 4) (1 / 4) =
     Inr \<lparr>TwoStateMarkovChain_P = [[1 / 4, 3 / 4], [1 / 4, 3 / 4]],
          TwoStateMarkovChain_pi = [1 / 4, 3 / 4]\<rparr> \<and>
   CycleRandomWalk_init (1 / 4) (1 / 2) (1 / 4) (PyInt 3) =
     Inr \<lparr>CycleRandomWalk_b = 1 / 4, CycleRandomWalk_s = 1 / 2, CycleRandomWalk_f = 1 / 4,
          vertices = 3,
          CycleRandomWalk_P = [[1 / 2, 1 / 4, 1 / 4], [1 / 4, 1 / 2, 1 / 4], [1 / 4, 1 / 4, 1 / 2]],
          CycleRandomWalk_pi = [1 / 3, 1 / 3, 1 / 3]\<rparr> \<and>
   Renewal_init 3 = Inr \<lparr>Renewal_n = 3, lim_f = 180, lim_x_zero = 1412\<rparr> \<and>
   AR1_generate toy_libs (AR1_init (1 / 2)) 3 (Some 1) (7::nat) = (Inr [1, 5 / 2, 17 / 4], 7) \<and>
   fst (AR1_generate toy_libs (AR1_init (1 / 2)) 3 (Some 1) (0::nat)) = Inr [1, 5 / 2, 17 / 4] \<and>
   fst (AR1_generate toy_libs (AR1_init (1 / 2)) 3 (Some 2) (7::nat)) = Inr [2, 4, 6] \<and>
   TwoStateMarkovChain_generate toy_libs
     \<lparr>TwoStateMarkovChain_P = [[1 / 4, 3 / 4], [1 / 4, 3 / 4]],
      TwoStateMarkovChain_pi = [1 / 4, 3 / 4]\<rparr> 3 (Some 1) (7::nat) = (Inr [1, 1, 1], 7) \<and>
   CycleRandomWalk_generate toy_libs
     \<lparr>CycleRandomWalk_b = 1 / 4, CycleRandomWalk_s = 1 / 2, CycleRandomWalk_f = 1 / 4,
      vertices = 3,
      CycleRandomWalk_P = [[1 / 2, 1 / 4, 1 / 4], [1 / 4, 1 / 2, 1 / 4], [1 / 4, 1 / 4, 1 / 2]],
      CycleRandomWalk_pi = [1 / 3, 1 / 3, 1 / 3]\<rparr> 3 (Some 1) (7::nat) = (Inr [1, 2, 1], 7) \<and>
   Renewal_generate toy_libs \<lparr>Renewal_n = 3, lim_f = 180, lim_x_zero = 1412\<rparr> 3 (Some 1) (7::nat) =
     (Inr [0, 0, 0], 7)"
proof -
  let ?m = "\<lparr>TwoStateMarkovChain_P = [[1 / 4, 3 / 4], [1 / 4, 3 / 4 :: real]],
      TwoStateMarkovChain_pi = [1 / 4, 3 / 4 :: real]\<rparr>"
  let ?c = "\<lparr>CycleRandomWalk_b = 1 / 4, CycleRandomWalk_s = 1 / 2, CycleRandomWalk_f = 1 / 4,
      vertices = 3,
      CycleRandomWalk_P = [[1 / 2, 1 / 4, 1 / 4], [1 / 4, 1 / 2, 1 / 4], [1 / 4, 1 / 4, 1 / 2]],
      CycleRandomWalk_pi = [1 / 3, 1 / 3, 1 / 3]\<rparr>"
  let ?r = "\<lparr>Renewal_n = 3, lim_f = 180, lim_x_zero = 1412\<rparr>"
  let ?us = "[999999 / 4000000, 999999 / 2000000, 2999997 / 4000000] :: real list"
  have m: "TwoStateMarkovChain_init (3 / 4) (1 / 4) = Inr ?m"
    by (simp add: TwoStateMarkovChain_init_def)
  have c: "CycleRandomWalk_init (1 / 4) (1 / 2) (1 / 4) (PyInt 3) = Inr ?c"
    by (simp add: CycleRandomWalk_init_def mat_add_def mat_scale_def eye_def mat_set_def
        py_index_def isclose_def upt_conv_Cons numeral_3_eq_3)
  have r: "Renewal_init 3 = Inr ?r"
    by (simp add: Renewal_init_def)
  have seeded: "seeded toy_libs (nat 1) = Suc 0" "seeded toy_libs (nat 2) = 2"
    by (simp_all add: toy_libs_def)
  have normals: "fst (draw_standard_normal toy_libs (Suc 0) 3) = [1, 2, 3]"
    "fst (draw_standard_normal toy_libs 2 3) = [2, 3, 4]"
    by (simp_all add: toy_libs_def upt_conv_Cons)
  have first: "draw_binomial toy_libs (Suc 0) 1 (3 / 4) = (1, 2)"
    by (simp add: toy_libs_def)
  have chain: "TwoStateMarkovChain_loop toy_libs [[1 / 4, 3 / 4], [1 / 4, 3 / 4]] [1..<3] 2 [1, 0, 0] =
      Inr [1, 1, 1]"
    by (simp add: upt_conv_Cons vec_get_def mat_get_def py_index_def rng_binomial_def toy_libs_def)
  have vertex: "draw_choice toy_libs (Suc 0) (arange 3) [1 / 3, 1 / 3, 1 / 3] 1 = ([1], 2)"
    by (simp add: toy_libs_def arange_def upt_conv_Cons)
  have moves: "fst (draw_choice toy_libs 2 [- 1, 0, 1] [1 / 4, 1 / 2, 1 / 4] 2) = [1, - 1]"
    by (simp add: toy_libs_def upt_conv_Cons)
  have walk: "map (\<lambda>x. x mod 3) (cumsum [1, 1, - 1 :: int]) = [1, 2, 1]"
    by (simp add: cumsum_def)
  have uniforms: "fst (draw_uniform toy_libs (Suc 0) 0 0.999999 3) = ?us"
    by (simp add: toy_libs_def upt_conv_Cons)
  have arrivals: "Renewal_arrivals toy_libs ?r ?us = [0, 1, 2]"
    by (simp add: Renewal_arrivals_def toy_first_gap_zero toy_later_gap_one cumsum_def)
  have indicator: "map (\<lambda>k. if k \<in> set (take k [0, 1, 2 :: nat]) then 1 else 0) [0..<3] = [0, 0, 0 :: int]"
    by (simp add: upt_conv_Cons)
  note run = generate_deterministic [of toy_libs ?m 3 1 7 0 "AR1_init (1 / 2)" ?c ?r
      "3 / 4" "1 / 4" "1 / 4" "1 / 2" "1 / 4" "PyInt 3" 3]
  note run2 = generate_deterministic [of toy_libs ?m 3 2 7 0 "AR1_init (1 / 2)" ?c ?r
      "3 / 4" "1 / 4" "1 / 4" "1 / 2" "1 / 4" "PyInt 3" 3]
  have seed1: "(0::int) \<le> 1" and seed2: "(0::int) \<le> 2"
    by simp_all
  have hyps_m: "libs_ok toy_libs \<and> (0::int) \<le> 1 \<and> (1::nat) \<le> 3 \<and>
      TwoStateMarkovChain_init (3 / 4) (1 / 4) = Inr ?m"
    using toy_libs_ok m by simp
  have hyps_c: "libs_ok toy_libs \<and> (0::int) \<le> 1 \<and> (1::nat) \<le> 3 \<and>
      CycleRandomWalk_init (1 / 4) (1 / 2) (1 / 4) (PyInt 3) = Inr ?c"
    using toy_libs_ok c by simp
  have hyps_r: "libs_ok toy_libs \<and> (0::int) \<le> 1 \<and> (1::nat) \<le> 3 \<and> Renewal_init 3 = Inr ?r"
    using toy_libs_ok r by simp
  note same = run [THEN conjunct2, THEN conjunct1]
  note rest = run [THEN conjunct2, THEN conjunct2, THEN conjunct2, THEN conjunct2]
  note rest2 = run2 [THEN conjunct2, THEN conjunct2, THEN conjunct2, THEN conjunct2]
  note t_ar1 = rest [THEN conjunct1, THEN mp, OF seed1]
  note t_ar1_other = rest2 [THEN conjunct1, THEN mp, OF seed2]
  note t_markov = rest [THEN conjunct2, THEN conjunct1, THEN mp, OF hyps_m]
  note t_cycle = rest [THEN conjunct2, THEN conjunct2, THEN conjunct1, THEN mp, OF hyps_c]
  note t_renewal = rest [THEN conjunct2, THEN conjunct2, THEN conjunct2, THEN mp, OF hyps_r]
  have ar1: "AR1_generate toy_libs (AR1_init (1 / 2)) 3 (Some 1) (7::nat) = (Inr [1, 5 / 2, 17 / 4], 7)"
    using t_ar1 unfolding seeded normals
    by (simp add: AR1_init_def upt_conv_Cons)
  have ar1_again: "fst (AR1_generate toy_libs (AR1_init (1 / 2)) 3 (Some 1) (0::nat)) =
      Inr [1, 5 / 2, 17 / 4]"
    using same ar1 by simp
  have ar1_other: "fst (AR1_generate toy_libs (AR1_init (1 / 2)) 3 (Some 2) (7::nat)) = Inr [2, 4, 6]"
    using t_ar1_other unfolding seeded normals
    by (simp add: AR1_init_def upt_conv_Cons)
  have m_sel: "TwoStateMarkovChain_P ?m = [[1 / 4, 3 / 4], [1 / 4, 3 / 4]]"
    "TwoStateMarkovChain_pi ?m ! 1 = 3 / 4"
    by simp_all
  have start: "(replicate 3 0)[0 := int 1] = [1, 0, 0]"
    by (simp add: numeral_3_eq_3)
  have markov: "TwoStateMarkovChain_generate toy_libs ?m 3 (Some 1) (7::nat) = (Inr [1, 1, 1], 7)"
    using t_markov
    unfolding seeded m_sel first fst_conv snd_conv start chain
    by simp
  have c_sel: "vertices ?c = 3" "CycleRandomWalk_pi ?c = [1 / 3, 1 / 3, 1 / 3]"
    "CycleRandomWalk_b ?c = 1 / 4" "CycleRandomWalk_s ?c = 1 / 2" "CycleRandomWalk_f ?c = 1 / 4"
    by simp_all
  have pred: "(3::nat) - 1 = 2"
    by simp
  have cycle: "CycleRandomWalk_generate toy_libs ?c 3 (Some 1) (7::nat) = (Inr [1, 2, 1], 7)"
    using t_cycle
    unfolding seeded c_sel vertex fst_conv snd_conv list.sel pred moves walk
    by simp
  have renewal: "Renewal_generate toy_libs ?r 3 (Some 1) (7::nat) = (Inr [0, 0, 0], 7)"
    using t_renewal
    unfolding seeded uniforms arrivals indicator
    by simp
  show ?thesis
    using toy_libs_ok m c r ar1 ar1_again ar1_other markov cycle renewal by simp
qed

section \<open>get_synthetic on the parameters each process accepts\<close>







end
